theory Spec2Isabelle
  imports Main "HOL-Library.Multiset" "HOL-Library.Word"
begin

section \<open>Errors\<close>

text \<open>
  Go \<^verbatim>\<open>error\<close> values. \<^verbatim>\<open>io.EOF\<close> and \<^verbatim>\<open>io.ErrUnexpectedEOF\<close> are the two sentinel
  values the input loop of \<^verbatim>\<open>AdminDBScan\<close> compares against; \<^verbatim>\<open>SyntaxError\<close> and
  \<^verbatim>\<open>UnmarshalTypeError\<close> are the other errors \<^verbatim>\<open>json.Decoder.Decode\<close> returns;
  \<^verbatim>\<open>NoMoreItems\<close> is the condition of a paging iterator asked for an item it does not have;
  \<^verbatim>\<open>Underlying\<close> is any error of a store, a file or a context. \<^verbatim>\<open>PrintableError msg err\<close>
  wraps a cause (\<^verbatim>\<open>nil\<close> is \<open>None\<close>) in a message, as the CLI helper of that name does.
\<close>

datatype error =
    EOF
  | ErrUnexpectedEOF
  | SyntaxError string
  | UnmarshalTypeError string
  | NoMoreItems
  | Underlying string
  | PrintableError string "error option"

section \<open>Invariants and the invariant manager\<close>

text \<open>
  Modelled from the spec: the check results are declared outside the source files. The
  outcome of one invariant on one execution is one of Healthy, Corrupted and Failed;
  Corrupted carries the description of the violation, Failed the error that kept the check
  from completing. The manager check result is the overall status and the ordered list of
  the individual results.
\<close>

datatype CheckResultType = Healthy | Corrupted | Failed

datatype CheckResult =
    CheckHealthy
  | CheckCorrupted string
  | CheckFailed error

fun resultType :: "CheckResult \<Rightarrow> CheckResultType" where
  "resultType CheckHealthy = Healthy"
| "resultType (CheckCorrupted d) = Corrupted"
| "resultType (CheckFailed e) = Failed"

record ManagerCheckResult =
  CheckResultType :: CheckResultType
  CheckResults :: "CheckResult list"

text \<open>An invariant is its \<^verbatim>\<open>Check\<close> method: a function of the execution snapshot.\<close>

type_synonym 'x Invariant = "'x \<Rightarrow> CheckResult"

text \<open>
  \<^verbatim>\<open>executions.InvariantFactory\<close>: builds an invariant from the persistence retryer and a
  domain cache. The only cache the source passes is the no-op one, so the model leaves the
  argument out.
\<close>

type_synonym ('p, 'x) InvariantFactory = "'p \<Rightarrow> 'x Invariant"

text \<open>
  Modelled from the spec: the severity order of the invariant manager, which is not among
  the source files: Failed above Corrupted above Healthy.
\<close>

fun severity :: "CheckResultType \<Rightarrow> nat" where
  "severity Healthy = 0"
| "severity Corrupted = 1"
| "severity Failed = 2"

text \<open>
  Modelled from the spec: the worse of the status so far and a new one, as the invariant
  manager, which is not among the source files, keeps it.
\<close>

definition worst :: "CheckResultType \<Rightarrow> CheckResultType \<Rightarrow> CheckResultType" where
  "worst cur new = (if severity cur < severity new then new else cur)"

text \<open>
  Modelled from the spec: the loop of the invariant manager (\<^verbatim>\<open>invariant.NewInvariantManager\<close>
  and its \<^verbatim>\<open>RunChecks\<close>), which is code of this repository that is not among the source
  files. The spec: it runs every configured invariant against the same snapshot, in the
  caller-supplied order, collecting every individual check result; the overall status is
  derived by taking the worst individual result. The loop visits the invariants once, in
  order, appends each result and keeps the worst status seen so far.
\<close>

fun RunChecks_loop :: "'x Invariant list \<Rightarrow> 'x \<Rightarrow> ManagerCheckResult \<Rightarrow> ManagerCheckResult" where
  "RunChecks_loop [] execution result = result"
| "RunChecks_loop (iv # ivs) execution result =
     (let checkResult = iv execution in
      RunChecks_loop ivs execution
        (result\<lparr> CheckResults := CheckResults result @ [checkResult],
                 CheckResultType := worst (CheckResultType result) (resultType checkResult) \<rparr>))"

text \<open>
  Modelled from the spec: \<^verbatim>\<open>RunChecks\<close> of the invariant manager, which is not among the
  source files. The loop starts from the status Healthy and an empty list of results.
\<close>

definition RunChecks :: "'x Invariant list \<Rightarrow> 'x \<Rightarrow> ManagerCheckResult" where
  "RunChecks ivs execution =
     RunChecks_loop ivs execution \<lparr> CheckResultType = Healthy, CheckResults = [] \<rparr>"

text \<open>
  \<^verbatim>\<open>checkExecution\<close>, lines 814 to 818: the invariants are built from the factories in the
  order of the slice, each from the same retryer (and the no-op domain cache), appended
  to \<^verbatim>\<open>ivs\<close>.
\<close>

fun build_invariants :: "('p, 'x) InvariantFactory list \<Rightarrow> 'p \<Rightarrow> 'x Invariant list \<Rightarrow> 'x Invariant list" where
  "build_invariants [] pr ivs = ivs"
| "build_invariants (fn # fns) pr ivs = build_invariants fns pr (ivs @ [fn pr])"

section \<open>The resilient storage accessor\<close>

text \<open>
  Modelled from the spec: the retry policy (\<^verbatim>\<open>common.CreatePersistenceRetryPolicy\<close>) is code
  of this repository that is not among the source files. The spec: a bounded attempt
  count, a backoff between attempts and a classification of the retryable errors. The
  backoff is a delay and has no place in the model.
\<close>

record RetryPolicy =
  MaxAttempts :: nat
  IsRetryable :: "error \<Rightarrow> bool"

text \<open>
  Modelled from the spec: the retry wrapper (\<^verbatim>\<open>persistence.NewPersistenceRetryer\<close>) is code
  of this repository that is not among the source files. The spec: every call is wrapped
  in the retry policy; definitive errors must not be retried; on exhausting the retries
  the last error is returned verbatim. The underlying call is stateful: \<open>call n\<close> is what
  its invocation number \<open>n\<close> (counted from 0) returns. \<open>retry_from\<close> is at attempt
  \<open>n\<close>, so \<open>n\<close> retries have happened; the result is the outcome together with the
  number of retries made.
\<close>

function retry_from :: "RetryPolicy \<Rightarrow> (nat \<Rightarrow> error + 'a) \<Rightarrow> nat \<Rightarrow> (error + 'a) \<times> nat" where
  "retry_from policy call n =
     (case call n of
        Inr v \<Rightarrow> (Inr v, n)
      | Inl err \<Rightarrow>
          if IsRetryable policy err \<and> Suc n < MaxAttempts policy
          then retry_from policy call (Suc n)
          else (Inl err, n))"
  by pat_completeness auto
termination
  by (relation "measure (\<lambda>(policy, call, n). MaxAttempts policy - n)") auto

declare retry_from.simps [simp del]

text \<open>
  Modelled from the spec: a call through the retry wrapper, which is not among the source
  files, starts at its first attempt.
\<close>

definition retry :: "RetryPolicy \<Rightarrow> (nat \<Rightarrow> error + 'a) \<Rightarrow> (error + 'a) \<times> nat" where
  "retry policy call = retry_from policy call 0"

section \<open>The pagination engine\<close>

type_synonym byte = "8 word"
type_synonym token = "byte list"

text \<open>
  \<^verbatim>\<open>PaginationFn\<close>: \<^verbatim>\<open>func(paginationToken []byte) ([]interface{}, []byte, error)\<close>. The
  function passed by \<^verbatim>\<open>listExecutionsByShardID\<close> calls the store, so the model threads a
  state \<open>'w\<close> through it.
\<close>

type_synonym ('a, 'w) PaginationFn = "token \<Rightarrow> 'w \<Rightarrow> (error + ('a list \<times> token)) \<times> 'w"

text \<open>
  Modelled from the spec: the paging iterator (\<^verbatim>\<open>collection.NewPagingIterator\<close>, its
  \<^verbatim>\<open>HasNext\<close> and \<^verbatim>\<open>Next\<close>) is code of this repository that is not among the source
  files. The spec: a lazy, forward-only, single-pass sequence over a function from a
  token to items, next token and error; one page is buffered at a time; when the buffer
  is exhausted and the last returned token was non-empty the source function is invoked
  again to refill; when the token is empty the sequence terminates; \<^verbatim>\<open>hasNext\<close> is an
  idempotent peek; a fetch error surfaces through \<^verbatim>\<open>next\<close>; \<^verbatim>\<open>next\<close> after exhaustion
  fails with a defined no-more-items condition (the error \<open>NoMoreItems\<close>). The state
  of an iterator is the last token returned, a fetch error not yet handed out, the
  buffered page and the position in it.
\<close>

record 'a PagingIterator =
  pageToken :: token
  pageErr :: "error option"
  pageItems :: "'a list"
  nextPageItemIndex :: nat

text \<open>
  Modelled from the spec: the refill of the paging iterator, which is not among the source
  files. The source function is invoked with the last token; its page and token replace
  the buffer. After a failed fetch the buffer and the token are empty, so once the error
  has been handed out the sequence is over; the spec is silent there and no property
  below depends on it.
\<close>

definition getNextPage :: "('a, 'w) PaginationFn \<Rightarrow> 'a PagingIterator \<Rightarrow> 'w \<Rightarrow> 'a PagingIterator \<times> 'w" where
  "getNextPage paginationFn iter w =
     (case paginationFn (pageToken iter) w of
        (Inr (items, tok), w') \<Rightarrow>
          (\<lparr> pageToken = tok, pageErr = None, pageItems = items, nextPageItemIndex = 0 \<rparr>, w')
      | (Inl err, w') \<Rightarrow>
          (\<lparr> pageToken = [], pageErr = Some err, pageItems = [], nextPageItemIndex = 0 \<rparr>, w'))"

text \<open>
  Modelled from the spec: \<^verbatim>\<open>collection.NewPagingIterator\<close>, which is not among the source
  files. The first page is fetched, with the empty token, when the iterator is made.
\<close>

definition NewPagingIterator :: "('a, 'w) PaginationFn \<Rightarrow> 'w \<Rightarrow> 'a PagingIterator \<times> 'w" where
  "NewPagingIterator paginationFn w =
     getNextPage paginationFn
       \<lparr> pageToken = [], pageErr = None, pageItems = [], nextPageItemIndex = 0 \<rparr> w"

text \<open>
  Modelled from the spec: \<^verbatim>\<open>HasNext\<close> of the paging iterator, which is not among the source
  files. It answers true on a pending error, so that \<^verbatim>\<open>Next\<close> can hand it out, and on a
  buffered item; on an exhausted buffer it refills while the token is non-empty, which
  need not end: not returning is the value \<open>None\<close>.
\<close>

partial_function (option) HasNext ::
  "('a, 'w) PaginationFn \<Rightarrow> 'a PagingIterator \<Rightarrow> 'w \<Rightarrow> (bool \<times> 'a PagingIterator \<times> 'w) option" where
  "HasNext paginationFn iter w =
     (if pageErr iter \<noteq> None then Some (True, iter, w)
      else if nextPageItemIndex iter < length (pageItems iter) then Some (True, iter, w)
      else if pageToken iter \<noteq> [] then
        (case getNextPage paginationFn iter w of (iter', w') \<Rightarrow> HasNext paginationFn iter' w')
      else Some (False, iter, w))"

text \<open>
  Modelled from the spec: \<^verbatim>\<open>Next\<close> of the paging iterator, which is not among the source
  files. It hands out the pending error, or the next buffered item, refilling as
  \<^verbatim>\<open>HasNext\<close> does; when nothing is left it fails with \<open>NoMoreItems\<close>.
\<close>

definition Next ::
  "('a, 'w) PaginationFn \<Rightarrow> 'a PagingIterator \<Rightarrow> 'w \<Rightarrow> ((error + 'a) \<times> 'a PagingIterator \<times> 'w) option" where
  "Next paginationFn iter w =
     (case HasNext paginationFn iter w of
        None \<Rightarrow> None
      | Some (hasNext, iter', w') \<Rightarrow>
          if \<not> hasNext then Some (Inl NoMoreItems, iter', w')
          else (case pageErr iter' of
                  Some err \<Rightarrow> Some (Inl err, iter'\<lparr> pageErr := None \<rparr>, w')
                | None \<Rightarrow>
                    if nextPageItemIndex iter' < length (pageItems iter')
                    then Some (Inr (pageItems iter' ! nextPageItemIndex iter'),
                               iter'\<lparr> nextPageItemIndex := Suc (nextPageItemIndex iter') \<rparr>, w')
                    else Some (Inl NoMoreItems, iter', w')))"

section \<open>The shard-range scan\<close>

record WorkflowExecutionInfo =
  DomainID :: string
  WorkflowID :: string
  RunID :: string
  CloseStatus :: int

text \<open>
  \<^verbatim>\<open>persistence.ListConcreteExecutionsEntity\<close>: both fields are pointers, \<^verbatim>\<open>nil\<close> is
  \<open>None\<close>. The version histories are only tested against \<^verbatim>\<open>nil\<close>; they are kept as the
  list of their branch tokens.
\<close>

record ListConcreteExecutionsEntity =
  ExecutionInfo :: "WorkflowExecutionInfo option"
  VersionHistories :: "token list option"

text \<open>What the commands do to the outside, in the order they do it.\<close>

datatype event =
    EvInitStore int
  | EvCloseStore int
  | EvInitHistoryManager
  | EvCloseHistoryManager
  | EvListConcreteExecutions int nat token
  | EvWriteString string
  | EvSync
  | EvCloseFile
  | EvStdout string
  | EvStderr error

type_synonym world = "event list"

text \<open>
  The CLI context with the collaborators reached through it. Both commands open the
  execution store of a shard with \<^verbatim>\<open>initializeExecutionStore\<close>, which may fail.
\<close>

record Context =
  initializeExecutionStore :: "int \<Rightarrow> error option"

text \<open>
  For the shard-range scan: the two shard-bound flags, whether the output file opens, what
  the store of a shard returns for a page token, and whether a write or a sync of the
  output file fails (which may depend on what happened before).
\<close>

record RangeContext = Context +
  FlagLowerShardBound :: int
  FlagUpperShardBound :: int
  getOutputFile :: "error option"
  ListConcreteExecutions :: "int \<Rightarrow> token \<Rightarrow> error + (ListConcreteExecutionsEntity list \<times> token)"
  WriteString :: "world \<Rightarrow> string \<Rightarrow> error option"
  Sync :: "world \<Rightarrow> error option"

text \<open>\<^verbatim>\<open>%v\<close> of a Go \<^verbatim>\<open>int\<close>: its decimal digits, with a minus sign when negative.\<close>

definition digit_char :: "nat \<Rightarrow> char" where
  "digit_char d = ''0123456789'' ! d"

function fmt_nat :: "nat \<Rightarrow> string" where
  "fmt_nat n = (if n < 10 then [digit_char n] else fmt_nat (n div 10) @ [digit_char (n mod 10)])"
  by pat_completeness auto
termination
  by (relation "measure id") auto

declare fmt_nat.simps [simp del]

definition fmt_int :: "int \<Rightarrow> string" where
  "fmt_int i = (if i < 0 then CHR ''-'' # fmt_nat (nat (- i)) else fmt_nat (nat i))"

text \<open>The closure \<^verbatim>\<open>paginationFunc\<close> of \<^verbatim>\<open>listExecutionsByShardID\<close>, page size 1000.\<close>

definition paginationFunc :: "RangeContext \<Rightarrow> int \<Rightarrow> (ListConcreteExecutionsEntity, world) PaginationFn" where
  "paginationFunc c shardID paginationToken w =
     (case ListConcreteExecutions c shardID paginationToken of
        Inl err \<Rightarrow> (Inl err, w @ [EvListConcreteExecutions shardID 1000 paginationToken])
      | Inr (executions, tok) \<Rightarrow>
          (Inr (executions, tok), w @ [EvListConcreteExecutions shardID 1000 paginationToken]))"

definition outStr :: "WorkflowExecutionInfo \<Rightarrow> string" where
  "outStr executionInfo =
     ''cadence --address <host>:<port> --domain <'' @ DomainID executionInfo
     @ ''> workflow reset --wid '' @ WorkflowID executionInfo
     @ '' --rid '' @ RunID executionInfo
     @ '' --reset_type LastDecisionCompleted --reason 'release 0.16 upgrade'' @ [CHR 0x27, CHR 0x0A]"

text \<open>
  The body of the loop of \<^verbatim>\<open>listExecutionsByShardID\<close> after \<^verbatim>\<open>Next\<close> has returned an
  execution (lines 881 to 896): the error to return, if any, and the new state.
\<close>

definition reportUnsupported :: "RangeContext \<Rightarrow> ListConcreteExecutionsEntity \<Rightarrow> world \<Rightarrow> error option \<times> world" where
  "reportUnsupported c execution w =
     (case ExecutionInfo execution of
        None \<Rightarrow> (None, w)
      | Some executionInfo \<Rightarrow>
          if CloseStatus executionInfo = 0 \<and> VersionHistories execution = None then
            (case WriteString c w (outStr executionInfo) of
               Some err \<Rightarrow> (Some (PrintableError ''Failed to write data to file'' (Some err)), w)
             | None \<Rightarrow>
                 (case Sync c (w @ [EvWriteString (outStr executionInfo)]) of
                    Some err \<Rightarrow>
                      (Some (PrintableError ''Failed to sync data to file'' (Some err)),
                       w @ [EvWriteString (outStr executionInfo)])
                  | None \<Rightarrow> (None, w @ [EvWriteString (outStr executionInfo), EvSync])))
          else (None, w))"

definition scanShardError :: "int \<Rightarrow> error \<Rightarrow> error" where
  "scanShardError shardID err =
     PrintableError
       (''Failed to scan shard ID: '' @ fmt_int shardID @ '' for unsupported workflow. Please retry.'')
       (Some err)"

text \<open>
  The loop \<^verbatim>\<open>for executionIterator.HasNext() { ... }\<close>. It ends when the iterator does;
  a store that never returns an empty token keeps it running, which is the value \<open>None\<close>.
\<close>

partial_function (option) iterateExecutions ::
  "RangeContext \<Rightarrow> int \<Rightarrow> ListConcreteExecutionsEntity PagingIterator \<Rightarrow> world \<Rightarrow> (error option \<times> world) option" where
  "iterateExecutions c shardID iter w =
     (case HasNext (paginationFunc c shardID) iter w of
        None \<Rightarrow> None
      | Some (hasNext, iter1, w1) \<Rightarrow>
          if \<not> hasNext then Some (None, w1)
          else (case Next (paginationFunc c shardID) iter1 w1 of
                  None \<Rightarrow> None
                | Some (Inl err, iter2, w2) \<Rightarrow> Some (Some (scanShardError shardID err), w2)
                | Some (Inr execution, iter2, w2) \<Rightarrow>
                    (case reportUnsupported c execution w2 of
                       (Some err, w3) \<Rightarrow> Some (Some err, w3)
                     | (None, w3) \<Rightarrow> iterateExecutions c shardID iter2 w3)))"

definition listExecutionsByShardID :: "RangeContext \<Rightarrow> int \<Rightarrow> world \<Rightarrow> (error option \<times> world) option" where
  "listExecutionsByShardID c shardID w =
     (case initializeExecutionStore c shardID of
        Some err \<Rightarrow> Some (Some (PrintableError ''Error initializinf execution store '' (Some err)), w)
      | None \<Rightarrow>
          (case NewPagingIterator (paginationFunc c shardID) (w @ [EvInitStore shardID]) of
             (executionIterator, w1) \<Rightarrow>
               (case iterateExecutions c shardID executionIterator w1 of
                  None \<Rightarrow> None
                | Some (res, w2) \<Rightarrow> Some (res, w2 @ [EvCloseStore shardID]))))"

text \<open>\<^verbatim>\<open>i++\<close> on a Go \<^verbatim>\<open>int\<close> (64 bits): the largest value wraps to the smallest.\<close>

definition int_incr :: "int \<Rightarrow> int" where
  "int_incr i = (if i = 9223372036854775807 then - 9223372036854775808 else i + 1)"

definition shardCompleted :: "int \<Rightarrow> string" where
  "shardCompleted i = ''Shard '' @ fmt_int i @ '' scan operation is completed.'' @ [CHR 0x0A]"

text \<open>The loop \<^verbatim>\<open>for i := startShardID; i <= endShardID; i++\<close>.\<close>

partial_function (option) scanShards ::
  "RangeContext \<Rightarrow> int \<Rightarrow> int \<Rightarrow> world \<Rightarrow> (error option \<times> world) option" where
  "scanShards c i endShardID w =
     (if i \<le> endShardID then
        (case listExecutionsByShardID c i w of
           None \<Rightarrow> None
         | Some (Some err, w') \<Rightarrow> Some (Some err, w')
         | Some (None, w') \<Rightarrow> scanShards c (int_incr i) endShardID (w' @ [EvStdout (shardCompleted i)]))
      else Some (None, w))"

definition AdminDBScanUnsupportedWorkflow :: "RangeContext \<Rightarrow> world \<Rightarrow> (error option \<times> world) option" where
  "AdminDBScanUnsupportedWorkflow c w =
     (case getOutputFile c of
        Some err \<Rightarrow> Some (Some (PrintableError ''Error getting output file: '' (Some err)), w)
      | None \<Rightarrow>
          (case scanShards c (FlagLowerShardBound c) (FlagUpperShardBound c) w of
             None \<Rightarrow> None
           | Some (res, w') \<Rightarrow> Some (res, w' @ [EvCloseFile])))"

section \<open>The targeted scan\<close>

text \<open>
  The part of the CLI context \<^verbatim>\<open>checkExecution\<close> and the scan loop of \<^verbatim>\<open>AdminDBScan\<close>
  reach: the workflow id of a request (\<^verbatim>\<open>fetcher.ExecutionRequest\<close> is declared outside
  the source files, so requests are a type parameter), the shard mapping
  \<^verbatim>\<open>common.WorkflowIDToHistoryShard\<close>, the retryer made over the stores of a shard,
  whether \<^verbatim>\<open>newContext\<close> fails, and what \<^verbatim>\<open>json.Marshal\<close> makes of an output entity.
\<close>

record ('r, 'p, 'x) ScanContext = Context +
  requestWorkflowID :: "'r \<Rightarrow> string"
  WorkflowIDToHistoryShard :: "string \<Rightarrow> int \<Rightarrow> int"
  NewPersistenceRetryer :: "int \<Rightarrow> 'p"
  newContext :: "error option"
  Marshal :: "'x \<Rightarrow> ManagerCheckResult \<Rightarrow> error + string"

text \<open>\<^verbatim>\<open>executions.ExecutionFetcher\<close>: fetches the execution of a request through the retryer.\<close>

type_synonym ('r, 'p, 'x) ExecutionFetcher = "'p \<Rightarrow> 'r \<Rightarrow> error + 'x"

text \<open>
  \<^verbatim>\<open>checkExecution\<close>. On an error the source returns a zero result next to it, which its
  caller drops; the model returns the error alone. The deferred calls run on every return
  after their \<^verbatim>\<open>defer\<close>, last deferred first: the history manager is closed, then the
  execution store. The error of \<^verbatim>\<open>initializeHistoryManager\<close> is overwritten unread in the
  source, so it is no branch here.
\<close>

definition checkExecution ::
  "('r, 'p, 'x) ScanContext \<Rightarrow> int \<Rightarrow> 'r \<Rightarrow> ('p, 'x) InvariantFactory list \<Rightarrow> ('r, 'p, 'x) ExecutionFetcher
     \<Rightarrow> world \<Rightarrow> (error + 'x \<times> ManagerCheckResult) \<times> world" where
  "checkExecution c numberOfShards req invariants fetcher w =
     (let shardID = WorkflowIDToHistoryShard c (requestWorkflowID c req) numberOfShards in
      case initializeExecutionStore c shardID of
        Some err \<Rightarrow> (Inl (PrintableError ''Error initializing exec manager '' (Some err)), w)
      | None \<Rightarrow>
          (let pr = NewPersistenceRetryer c shardID;
               w1 = w @ [EvInitStore shardID, EvInitHistoryManager] in
           case newContext c of
             Some err \<Rightarrow>
               (Inl (PrintableError ''Error creating new context '' (Some err)),
                w1 @ [EvCloseHistoryManager, EvCloseStore shardID])
           | None \<Rightarrow>
               (case fetcher pr req of
                  Inl err \<Rightarrow>
                    (Inl (PrintableError ''Error in fetching context: '' (Some err)),
                     w1 @ [EvCloseHistoryManager, EvCloseStore shardID])
                | Inr execution \<Rightarrow>
                    (Inr (execution, RunChecks (build_invariants invariants pr []) execution),
                     w1 @ [EvCloseHistoryManager, EvCloseStore shardID]))))"

text \<open>The loop \<^verbatim>\<open>for _, e := range data\<close> of \<^verbatim>\<open>AdminDBScan\<close> (lines 760 to 777).\<close>

fun scanExecutions ::
  "('r, 'p, 'x) ScanContext \<Rightarrow> int \<Rightarrow> ('p, 'x) InvariantFactory list \<Rightarrow> ('r, 'p, 'x) ExecutionFetcher
     \<Rightarrow> 'r list \<Rightarrow> world \<Rightarrow> error option \<times> world" where
  "scanExecutions c numberOfShards invariants ef [] w = (None, w)"
| "scanExecutions c numberOfShards invariants ef (e # data) w =
     (case checkExecution c numberOfShards e invariants ef w of
        (Inl err, w') \<Rightarrow> (Some (PrintableError ''Error checking execution: '' (Some err)), w')
      | (Inr (execution, result), w') \<Rightarrow>
          (case Marshal c execution result of
             Inl err \<Rightarrow> scanExecutions c numberOfShards invariants ef data (w' @ [EvStderr err])
           | Inr out \<Rightarrow> scanExecutions c numberOfShards invariants ef data (w' @ [EvStdout out])))"

text \<open>
  The input loop of \<^verbatim>\<open>AdminDBScan\<close> (lines 749 to 758) over a decoder: \<^verbatim>\<open>Decode\<close> returns an
  error or a request and moves the decoder on. The loop has one exit, on \<^verbatim>\<open>io.EOF\<close> or
  \<^verbatim>\<open>io.ErrUnexpectedEOF\<close>; after any other error it calls \<^verbatim>\<open>Decode\<close> again. Not returning
  is the value \<open>None\<close>.
\<close>

partial_function (option) decodeRequests ::
  "('d \<Rightarrow> (error + 'r) \<times> 'd) \<Rightarrow> 'd \<Rightarrow> 'r list \<Rightarrow> 'r list option" where
  "decodeRequests Decode dec data =
     (case Decode dec of
        (Inl err, dec') \<Rightarrow>
          if err = EOF \<or> err = ErrUnexpectedEOF then Some data
          else decodeRequests Decode dec' data
      | (Inr exec, dec') \<Rightarrow> decodeRequests Decode dec' (data @ [exec]))"

text \<open>
  \<^verbatim>\<open>AdminDBScan\<close> from the decoder on: the flags have been read, the invariants and the
  fetcher chosen and the input file opened (each of those steps returns its own error
  before any input is read).
\<close>

definition AdminDBScan ::
  "('r, 'p, 'x) ScanContext \<Rightarrow> int \<Rightarrow> ('p, 'x) InvariantFactory list \<Rightarrow> ('r, 'p, 'x) ExecutionFetcher
     \<Rightarrow> ('d \<Rightarrow> (error + 'r) \<times> 'd) \<Rightarrow> 'd \<Rightarrow> world \<Rightarrow> (error option \<times> world) option" where
  "AdminDBScan c numberOfShards invariants ef Decode dec w =
     (case decodeRequests Decode dec [] of
        None \<Rightarrow> None
      | Some data \<Rightarrow> Some (scanExecutions c numberOfShards invariants ef data w))"

text \<open>
  The decoder of Go's \<^verbatim>\<open>encoding/json\<close> (standard library, not code of this repository),
  on an input seen as the sequence of its chunks: a complete JSON value that unmarshals
  into a request, a complete JSON value that does not (\<^verbatim>\<open>Decode\<close> returns an
  \<^verbatim>\<open>UnmarshalTypeError\<close> and the decoder stays usable), bytes that are no JSON value (a
  \<^verbatim>\<open>SyntaxError\<close>), a value cut short by the end of the input (\<^verbatim>\<open>io.ErrUnexpectedEOF\<close>).
  At the end of the input \<^verbatim>\<open>Decode\<close> returns \<^verbatim>\<open>io.EOF\<close>. The decoder keeps a scan or read
  error in its field \<^verbatim>\<open>err\<close> (\<open>dec_err\<close> here), and \<^verbatim>\<open>Decode\<close> starts with
  \<^verbatim>\<open>if dec.err != nil { return dec.err }\<close>: after a syntax error every later call returns
  that same error and reads nothing more.
\<close>

datatype 'r chunk = Value 'r | Mistyped string | Malformed string | Truncated

record 'r JsonDecoder =
  input :: "'r chunk list"
  dec_err :: "error option"

definition JsonDecode :: "'r JsonDecoder \<Rightarrow> (error + 'r) \<times> 'r JsonDecoder" where
  "JsonDecode dec =
     (case dec_err dec of
        Some e \<Rightarrow> (Inl e, dec)
      | None \<Rightarrow>
          (case input dec of
             [] \<Rightarrow> (Inl EOF, dec\<lparr> dec_err := Some EOF \<rparr>)
           | Value v # rest \<Rightarrow> (Inr v, dec\<lparr> input := rest \<rparr>)
           | Mistyped msg # rest \<Rightarrow> (Inl (UnmarshalTypeError msg), dec\<lparr> input := rest \<rparr>)
           | Malformed msg # rest \<Rightarrow> (Inl (SyntaxError msg), dec\<lparr> dec_err := Some (SyntaxError msg) \<rparr>)
           | Truncated # rest \<Rightarrow> (Inl ErrUnexpectedEOF, dec\<lparr> dec_err := Some ErrUnexpectedEOF \<rparr>)))"

definition NewDecoder :: "'r chunk list \<Rightarrow> 'r JsonDecoder" where
  "NewDecoder chunks = \<lparr> input = chunks, dec_err = None \<rparr>"

text \<open>
  The requests an input gives when read to its end or to the first value that is cut short
  or is no JSON: a value of the wrong type is passed over.
\<close>

fun decoded :: "'r chunk list \<Rightarrow> 'r list" where
  "decoded [] = []"
| "decoded (Value v # rest) = v # decoded rest"
| "decoded (Mistyped msg # rest) = decoded rest"
| "decoded (Malformed msg # rest) = []"
| "decoded (Truncated # rest) = []"

fun wellFormed :: "'r chunk list \<Rightarrow> bool" where
  "wellFormed [] = True"
| "wellFormed (Value v # rest) = wellFormed rest"
| "wellFormed (Mistyped msg # rest) = wellFormed rest"
| "wellFormed (Malformed msg # rest) = False"
| "wellFormed (Truncated # rest) = True"

section \<open>Runs of a paged source\<close>

text \<open>
  A finite run of a paged source \<open>f\<close> from the token \<open>tok\<close>: the requests made, each with
  the token sent and the page or the error received. Each request sends the token the
  page before returned; the run ends with the first page whose token is empty, or with
  the first error.
\<close>

fun page_chain :: "(token \<Rightarrow> error + ('a list \<times> token)) \<Rightarrow> token \<Rightarrow> (token \<times> (error + 'a list)) list \<Rightarrow> bool" where
  "page_chain f tok [] = False"
| "page_chain f tok ((t, r) # ps) =
     (t = tok \<and>
      (case f tok of
         Inl e \<Rightarrow> r = Inl e \<and> ps = []
       | Inr (items, tok') \<Rightarrow>
           r = Inr items \<and> (if tok' = [] then ps = [] else page_chain f tok' ps)))"

text \<open>The items of the pages of a run, in order, and the error it ended with, if any.\<close>

fun page_items :: "(token \<times> (error + 'a list)) list \<Rightarrow> 'a list" where
  "page_items [] = []"
| "page_items ((t, Inr items) # ps) = items @ page_items ps"
| "page_items ((t, Inl e) # ps) = page_items ps"

fun page_failure :: "(token \<times> (error + 'a list)) list \<Rightarrow> error option" where
  "page_failure [] = None"
| "page_failure ((t, Inr items) # ps) = page_failure ps"
| "page_failure ((t, Inl e) # ps) = Some e"

text \<open>A source without effects as a pagination function: the state is passed through.\<close>

definition pureSource :: "(token \<Rightarrow> error + ('a list \<times> token)) \<Rightarrow> ('a, 'w) PaginationFn" where
  "pureSource f tok w = (f tok, w)"

text \<open>
  \<open>k\<close> calls of \<^verbatim>\<open>Next\<close> in a row: what each returned, and the iterator after them.
\<close>

fun nextN ::
  "('a, 'w) PaginationFn \<Rightarrow> nat \<Rightarrow> 'a PagingIterator \<Rightarrow> 'w \<Rightarrow> ((error + 'a) list \<times> 'a PagingIterator \<times> 'w) option" where
  "nextN paginationFn 0 iter w = Some ([], iter, w)"
| "nextN paginationFn (Suc k) iter w =
     (case Next paginationFn iter w of
        None \<Rightarrow> None
      | Some (r, iter', w') \<Rightarrow>
          (case nextN paginationFn k iter' w' of
             None \<Rightarrow> None
           | Some (rs, iter'', w'') \<Rightarrow> Some (r # rs, iter'', w'')))"

section \<open>What a shard-range scan is expected to do\<close>

text \<open>
  The signature the scan looks for, in the words of the spec: the close status says still
  open (it is 0) and no version-history pointer is present. An execution without
  execution metadata has no close status.
\<close>

definition stillOpenWithoutHistories :: "ListConcreteExecutionsEntity \<Rightarrow> bool" where
  "stillOpenWithoutHistories execution =
     ((case ExecutionInfo execution of None \<Rightarrow> False | Some info \<Rightarrow> CloseStatus info = 0)
      \<and> VersionHistories execution = None)"

text \<open>The remediation lines of a list of executions: one per match, in order.\<close>

definition remediationLines :: "ListConcreteExecutionsEntity list \<Rightarrow> string list" where
  "remediationLines executions =
     map (\<lambda>execution. outStr (the (ExecutionInfo execution))) (filter stillOpenWithoutHistories executions)"

text \<open>Each line is written and then synced.\<close>

definition lineEvents :: "string list \<Rightarrow> event list" where
  "lineEvents ls = concat (map (\<lambda>l. [EvWriteString l, EvSync]) ls)"

text \<open>The events of one request of a run on a shard, and of the whole run.\<close>

fun pageEvents :: "int \<Rightarrow> token \<times> (error + ListConcreteExecutionsEntity list) \<Rightarrow> event list" where
  "pageEvents shardID (tok, Inl e) = [EvListConcreteExecutions shardID 1000 tok]"
| "pageEvents shardID (tok, Inr items) =
     EvListConcreteExecutions shardID 1000 tok # lineEvents (remediationLines items)"

definition shardEvents :: "int \<Rightarrow> (token \<times> (error + ListConcreteExecutionsEntity list)) list \<Rightarrow> event list" where
  "shardEvents shardID ps =
     EvInitStore shardID # concat (map (pageEvents shardID) ps) @ [EvCloseStore shardID]"

text \<open>The lines written to the output file, read off the events.\<close>

fun written :: "world \<Rightarrow> string list" where
  "written [] = []"
| "written (EvWriteString l # w) = l # written w"
| "written (ev # w) = written w"

section \<open>Example inputs\<close>

text \<open>
  A store of the kind the spec's range-scan test describes. Shard 1 holds four executions
  on two pages: an open one without version histories, a closed one, one without
  execution metadata, and an open one with version histories. Shard 3 fails to list.
  Every other shard is empty.
\<close>

definition openExecution :: ListConcreteExecutionsEntity where
  "openExecution =
     \<lparr> ExecutionInfo = Some \<lparr> DomainID = ''domain-1'', WorkflowID = ''wf-open'', RunID = ''run-1'', CloseStatus = 0 \<rparr>,
       VersionHistories = None \<rparr>"

definition closedExecution :: ListConcreteExecutionsEntity where
  "closedExecution =
     \<lparr> ExecutionInfo = Some \<lparr> DomainID = ''domain-1'', WorkflowID = ''wf-closed'', RunID = ''run-2'', CloseStatus = 1 \<rparr>,
       VersionHistories = None \<rparr>"

definition bareExecution :: ListConcreteExecutionsEntity where
  "bareExecution = \<lparr> ExecutionInfo = None, VersionHistories = None \<rparr>"

definition versionedExecution :: ListConcreteExecutionsEntity where
  "versionedExecution =
     \<lparr> ExecutionInfo = Some \<lparr> DomainID = ''domain-1'', WorkflowID = ''wf-new'', RunID = ''run-3'', CloseStatus = 0 \<rparr>,
       VersionHistories = Some [[7]] \<rparr>"

definition exampleStore :: "int \<Rightarrow> token \<Rightarrow> error + (ListConcreteExecutionsEntity list \<times> token)" where
  "exampleStore shardID tok =
     (if shardID = 1 then
        (if tok = [] then Inr ([openExecution, closedExecution, bareExecution], [1])
         else Inr ([versionedExecution], []))
      else if shardID = 3 then Inl (Underlying ''timeout'')
      else Inr ([], []))"

definition examplePages :: "int \<Rightarrow> (token \<times> (error + ListConcreteExecutionsEntity list)) list" where
  "examplePages shardID =
     (if shardID = 1 then
        [([], Inr [openExecution, closedExecution, bareExecution]), ([1], Inr [versionedExecution])]
      else if shardID = 3 then [([], Inl (Underlying ''timeout''))]
      else [([], Inr [])])"

definition exampleContext :: "int \<Rightarrow> int \<Rightarrow> RangeContext" where
  "exampleContext lower upper =
     \<lparr> initializeExecutionStore = (\<lambda>shardID. None),
       FlagLowerShardBound = lower, FlagUpperShardBound = upper, getOutputFile = None,
       ListConcreteExecutions = exampleStore,
       WriteString = (\<lambda>w l. None), Sync = (\<lambda>w. None) \<rparr>"

text \<open>
  A targeted scan whose requests are workflow ids, all on shard 0, with one invariant that
  finds every execution healthy; the execution of workflow \<^verbatim>\<open>A\<close> cannot be fetched.
\<close>

definition exampleScanContext :: "(string, unit, string) ScanContext" where
  "exampleScanContext =
     \<lparr> initializeExecutionStore = (\<lambda>shardID. None),
       requestWorkflowID = (\<lambda>req. req), WorkflowIDToHistoryShard = (\<lambda>workflowID numberOfShards. 0),
       NewPersistenceRetryer = (\<lambda>shardID. ()),
       newContext = None, Marshal = (\<lambda>execution result. Inr execution) \<rparr>"

definition exampleFetcher :: "(string, unit, string) ExecutionFetcher" where
  "exampleFetcher pr req = (if req = ''A'' then Inl (Underlying ''not found'') else Inr req)"

definition exampleInvariants :: "(unit, string) InvariantFactory list" where
  "exampleInvariants = [\<lambda>pr execution. CheckHealthy]"

text \<open>
  The input of the spec's parsing test, three lines of which the second is no JSON:
  \<^verbatim>\<open>{"workflowID":"A"}\<close>, \<^verbatim>\<open>{bad\<close>, \<^verbatim>\<open>{"workflowID":"B"}\<close>.
\<close>

definition exampleInput :: "string chunk list" where
  "exampleInput =
     [Value ''A'', Malformed ''invalid character 'b' looking for beginning of object key string'', Value ''B'']"

section \<open>Properties of the invariant manager\<close>

lemma RunChecks_loop_results:
  "CheckResults (RunChecks_loop ivs x r) = CheckResults r @ map (\<lambda>iv. iv x) ivs"
  by (induction ivs arbitrary: r) (simp_all add: Let_def)

lemma build_invariants_eq:
  "build_invariants fns pr ivs = ivs @ map (\<lambda>fn. fn pr) fns"
  by (induction fns arbitrary: ivs) simp_all

lemma worst_simps [simp]:
  "worst Failed t = Failed"
  "worst Healthy t = t"
  "worst Corrupted Healthy = Corrupted"
  "worst Corrupted Corrupted = Corrupted"
  "worst Corrupted Failed = Failed"
  by (cases t; simp add: worst_def)+

lemma RunChecks_loop_type:
  "CheckResultType (RunChecks_loop ivs x r) =
     foldl worst (CheckResultType r) (map (\<lambda>iv. resultType (iv x)) ivs)"
  by (induction ivs arbitrary: r) (simp_all add: Let_def)

lemma foldl_worst_law:
  "foldl worst s ts =
     (if s = Failed \<or> Failed \<in> set ts then Failed
      else if s = Corrupted \<or> Corrupted \<in> set ts then Corrupted
      else Healthy)"
proof (induction ts arbitrary: s)
  case Nil
  show ?case by (cases s) simp_all
next
  case (Cons t ts)
  show ?case
    by (cases s; cases t) (simp_all add: Cons.IH)
qed

lemma RunChecks_type_law:
  "CheckResultType (RunChecks ivs x) =
     (if Failed \<in> resultType ` set (CheckResults (RunChecks ivs x)) then Failed
      else if Corrupted \<in> resultType ` set (CheckResults (RunChecks ivs x)) then Corrupted
      else Healthy)"
proof -
  have "resultType ` set (CheckResults (RunChecks ivs x)) = set (map (\<lambda>iv. resultType (iv x)) ivs)"
    by (simp add: RunChecks_def RunChecks_loop_results image_image)
  then show ?thesis
    by (simp only: RunChecks_def RunChecks_loop_type foldl_worst_law) simp
qed

lemma RunChecks_results: "CheckResults (RunChecks ivs x) = map (\<lambda>iv. iv x) ivs"
  by (simp add: RunChecks_def RunChecks_loop_results)

text \<open>
  C3: for every execution snapshot and every list of invariants, \<^verbatim>\<open>RunChecks\<close> returns
  exactly one individual check result per configured invariant, in the order of the list,
  whatever the earlier invariants report: the detail list is the list of the invariants'
  own results, its length is the number of invariants, and the invariants
  \<^verbatim>\<open>checkExecution\<close> builds from its factories give one result per factory, in order.
\<close>

theorem RunChecks_one_result_per_invariant:
  "CheckResults (RunChecks ivs execution) = map (\<lambda>iv. iv execution) ivs
   \<and> length (CheckResults (RunChecks ivs execution)) = length ivs
   \<and> CheckResults (RunChecks (build_invariants invariants pr []) execution)
       = map (\<lambda>fn. fn pr execution) invariants"
  by (simp add: RunChecks_results build_invariants_eq comp_def)

text \<open>
  C4: the overall status of the manager is Failed if any individual result is Failed, else
  Corrupted if any individual result is Corrupted, else Healthy; and permuting the list of
  invariants leaves the overall status as it is and permutes the detail list.
\<close>

theorem RunChecks_aggregation_law:
  "CheckResultType (RunChecks ivs execution) =
     (if Failed \<in> resultType ` set (CheckResults (RunChecks ivs execution)) then Failed
      else if Corrupted \<in> resultType ` set (CheckResults (RunChecks ivs execution)) then Corrupted
      else Healthy)
   \<and> (mset ivs' = mset ivs \<longrightarrow>
        CheckResultType (RunChecks ivs' execution) = CheckResultType (RunChecks ivs execution)
        \<and> mset (CheckResults (RunChecks ivs' execution)) = mset (CheckResults (RunChecks ivs execution)))"
proof (intro conjI impI)
  show "CheckResultType (RunChecks ivs execution) =
     (if Failed \<in> resultType ` set (CheckResults (RunChecks ivs execution)) then Failed
      else if Corrupted \<in> resultType ` set (CheckResults (RunChecks ivs execution)) then Corrupted
      else Healthy)"
    by (rule RunChecks_type_law)
next
  assume perm: "mset ivs' = mset ivs"
  have results: "mset (CheckResults (RunChecks ivs' execution)) = mset (CheckResults (RunChecks ivs execution))"
  proof -
    have "mset (map (\<lambda>iv. iv execution) ivs') = mset (map (\<lambda>iv. iv execution) ivs)"
      using perm by (metis mset_map)
    then show ?thesis by (simp only: RunChecks_results)
  qed
  then show "mset (CheckResults (RunChecks ivs' execution)) = mset (CheckResults (RunChecks ivs execution))" .
  from results have "set (CheckResults (RunChecks ivs' execution)) = set (CheckResults (RunChecks ivs execution))"
    by (rule mset_eq_setD)
  then show "CheckResultType (RunChecks ivs' execution) = CheckResultType (RunChecks ivs execution)"
    by (simp only: RunChecks_type_law [of ivs'] RunChecks_type_law [of ivs])
qed

theorem RunChecks_aggregation_law_witness:
  "mset [\<lambda>_::unit. CheckFailed EOF, \<lambda>_. CheckHealthy, \<lambda>_. CheckCorrupted ''dangling'']
     = mset [\<lambda>_::unit. CheckHealthy, \<lambda>_. CheckCorrupted ''dangling'', \<lambda>_. CheckFailed EOF]
   \<and> CheckResultType (RunChecks [\<lambda>_::unit. CheckHealthy, \<lambda>_. CheckCorrupted ''dangling'', \<lambda>_. CheckFailed EOF] ()) = Failed
   \<and> CheckResultType (RunChecks [\<lambda>_::unit. CheckFailed EOF, \<lambda>_. CheckHealthy, \<lambda>_. CheckCorrupted ''dangling''] ()) = Failed
   \<and> CheckResults (RunChecks [\<lambda>_::unit. CheckFailed EOF, \<lambda>_. CheckHealthy, \<lambda>_. CheckCorrupted ''dangling''] ())
       = [CheckFailed EOF, CheckHealthy, CheckCorrupted ''dangling'']"
proof -
  have perm: "mset [\<lambda>_::unit. CheckFailed EOF, \<lambda>_. CheckHealthy, \<lambda>_. CheckCorrupted ''dangling'']
     = mset [\<lambda>_::unit. CheckHealthy, \<lambda>_. CheckCorrupted ''dangling'', \<lambda>_. CheckFailed EOF]"
    by (simp add: add_mset_commute)
  have base: "CheckResultType (RunChecks [\<lambda>_::unit. CheckHealthy, \<lambda>_. CheckCorrupted ''dangling'', \<lambda>_. CheckFailed EOF] ()) = Failed"
    by (simp add: RunChecks_def Let_def)
  have res: "CheckResults (RunChecks [\<lambda>_::unit. CheckFailed EOF, \<lambda>_. CheckHealthy, \<lambda>_. CheckCorrupted ''dangling''] ())
       = [CheckFailed EOF, CheckHealthy, CheckCorrupted ''dangling'']"
    by (simp add: RunChecks_def Let_def)
  from RunChecks_aggregation_law
         [of "[\<lambda>_::unit. CheckHealthy, \<lambda>_. CheckCorrupted ''dangling'', \<lambda>_. CheckFailed EOF]" "()"
             "[\<lambda>_::unit. CheckFailed EOF, \<lambda>_. CheckHealthy, \<lambda>_. CheckCorrupted ''dangling'']"]
    perm base res
  show ?thesis by simp
qed

section \<open>Properties of the resilient storage accessor\<close>

lemma retry_from_skip:
  "n + k < MaxAttempts policy \<or> k = 0 \<Longrightarrow>
   (\<And>j. j < k \<Longrightarrow> \<exists>e. call (n + j) = Inl e \<and> IsRetryable policy e) \<Longrightarrow>
   retry_from policy call n = retry_from policy call (n + k)"
proof (induction k)
  case 0
  show ?case by simp
next
  case (Suc k)
  from Suc.prems(1) have bound: "Suc (n + k) < MaxAttempts policy" by simp
  then have "retry_from policy call n = retry_from policy call (n + k)"
    using Suc.prems(2) by (intro Suc.IH) auto
  moreover obtain e where "call (n + k) = Inl e" "IsRetryable policy e"
    using Suc.prems(2) [of k] by auto
  then have "retry_from policy call (n + k) = retry_from policy call (Suc (n + k))"
    using bound by (subst retry_from.simps) simp
  ultimately show ?case by simp
qed

text \<open>
  C8: a call that fails transiently K times, K below the maximum attempt count, and then
  succeeds, succeeds through the wrapper after exactly K retries; a call whose first K
  invocations fail transiently, K at least the (positive) maximum attempt count, fails
  through the wrapper with the error of its last invocation, unchanged, after the maximum
  number of attempts; and an error classified as non-retryable is returned at once,
  with no retry after it.
\<close>

theorem retry_bounded_attempts:
  "(K < MaxAttempts policy \<and> (\<forall>j<K. \<exists>e. call j = Inl e \<and> IsRetryable policy e) \<and> call K = Inr v
      \<longrightarrow> retry policy call = (Inr v, K))
   \<and> (0 < MaxAttempts policy \<and> MaxAttempts policy \<le> K' \<and> (\<forall>j<K'. \<exists>e. call' j = Inl e \<and> IsRetryable policy e)
      \<longrightarrow> retry policy call' = (call' (MaxAttempts policy - 1), MaxAttempts policy - 1)
          \<and> (\<exists>e. call' (MaxAttempts policy - 1) = Inl e))
   \<and> (n \<le> MaxAttempts policy - 1 \<and> (\<forall>j<n. \<exists>e. call'' j = Inl e \<and> IsRetryable policy e)
        \<and> call'' n = Inl err \<and> \<not> IsRetryable policy err
      \<longrightarrow> retry policy call'' = (Inl err, n))"
proof (intro conjI impI)
  assume a: "K < MaxAttempts policy \<and> (\<forall>j<K. \<exists>e. call j = Inl e \<and> IsRetryable policy e) \<and> call K = Inr v"
  then have "retry_from policy call 0 = retry_from policy call (0 + K)"
    by (intro retry_from_skip) auto
  also have "\<dots> = (Inr v, K)"
    using a by (subst retry_from.simps) simp
  finally show "retry policy call = (Inr v, K)" by (simp add: retry_def)
next
  assume b: "0 < MaxAttempts policy \<and> MaxAttempts policy \<le> K'
             \<and> (\<forall>j<K'. \<exists>e. call' j = Inl e \<and> IsRetryable policy e)"
  then have "MaxAttempts policy - 1 < K'" by arith
  with b have "\<exists>e. call' (MaxAttempts policy - 1) = Inl e \<and> IsRetryable policy e" by blast
  then obtain e where e: "call' (MaxAttempts policy - 1) = Inl e" by blast
  from b have "retry_from policy call' 0 = retry_from policy call' (0 + (MaxAttempts policy - 1))"
    by (intro retry_from_skip) auto
  also have "\<dots> = (Inl e, MaxAttempts policy - 1)"
    using b e by (subst retry_from.simps) simp
  finally show "retry policy call' = (call' (MaxAttempts policy - 1), MaxAttempts policy - 1)"
    using e by (simp add: retry_def)
  from e show "\<exists>e. call' (MaxAttempts policy - 1) = Inl e" by blast
next
  assume c: "n \<le> MaxAttempts policy - 1 \<and> (\<forall>j<n. \<exists>e. call'' j = Inl e \<and> IsRetryable policy e)
             \<and> call'' n = Inl err \<and> \<not> IsRetryable policy err"
  then have "retry_from policy call'' 0 = retry_from policy call'' (0 + n)"
    by (intro retry_from_skip) auto
  also have "\<dots> = (Inl err, n)"
    using c by (subst retry_from.simps) simp
  finally show "retry policy call'' = (Inl err, n)" by (simp add: retry_def)
qed

theorem retry_bounded_attempts_witness:
  "retry \<lparr> MaxAttempts = 3, IsRetryable = (\<lambda>e. e = Underlying ''timeout'') \<rparr>
         (\<lambda>n. if n < 2 then Inl (Underlying ''timeout'') else Inr (7::nat)) = (Inr 7, 2)
   \<and> retry \<lparr> MaxAttempts = 3, IsRetryable = (\<lambda>e. e = Underlying ''timeout'') \<rparr>
         (\<lambda>n. if n < 5 then Inl (Underlying ''timeout'') else Inr (7::nat)) = (Inl (Underlying ''timeout''), 2)
   \<and> retry \<lparr> MaxAttempts = 3, IsRetryable = (\<lambda>e. e = Underlying ''timeout'') \<rparr>
         (\<lambda>n. if n < 1 then Inl (Underlying ''timeout'') else (Inl (Underlying ''not found'') :: error + nat))
       = (Inl (Underlying ''not found''), 1)"
  using retry_bounded_attempts
          [of 2 "\<lparr> MaxAttempts = 3, IsRetryable = (\<lambda>e. e = Underlying ''timeout'') \<rparr>"
              "\<lambda>n. if n < 2 then Inl (Underlying ''timeout'') else Inr (7::nat)" 7
              5 "\<lambda>n. if n < 5 then Inl (Underlying ''timeout'') else Inr (7::nat)"
              1 "\<lambda>n. if n < 1 then Inl (Underlying ''timeout'') else (Inl (Underlying ''not found'') :: error + nat)"
              "Underlying ''not found''"]
  by simp

section \<open>Properties of the pagination engine\<close>

lemma HasNext_buffered:
  "pageErr it = None \<Longrightarrow> nextPageItemIndex it < length (pageItems it) \<Longrightarrow>
   HasNext fn it w = Some (True, it, w)"
  by (subst HasNext.simps) simp

lemma HasNext_pending:
  "pageErr it = Some e \<Longrightarrow> HasNext fn it w = Some (True, it, w)"
  by (subst HasNext.simps) simp

lemma HasNext_refill:
  "pageErr it = None \<Longrightarrow> length (pageItems it) \<le> nextPageItemIndex it \<Longrightarrow> pageToken it \<noteq> [] \<Longrightarrow>
   HasNext fn it w = HasNext fn (fst (getNextPage fn it w)) (snd (getNextPage fn it w))"
  by (subst HasNext.simps) (simp add: case_prod_beta)

lemma HasNext_end:
  "pageErr it = None \<Longrightarrow> length (pageItems it) \<le> nextPageItemIndex it \<Longrightarrow> pageToken it = [] \<Longrightarrow>
   HasNext fn it w = Some (False, it, w)"
  by (subst HasNext.simps) simp

lemma Next_cong:
  "HasNext fn it w = HasNext fn it' w' \<Longrightarrow> Next fn it w = Next fn it' w'"
  by (simp add: Next_def)

lemma Next_buffered:
  "pageErr it = None \<Longrightarrow> nextPageItemIndex it < length (pageItems it) \<Longrightarrow>
   Next fn it w =
     Some (Inr (pageItems it ! nextPageItemIndex it), it\<lparr> nextPageItemIndex := Suc (nextPageItemIndex it) \<rparr>, w)"
  by (simp add: Next_def HasNext_buffered)

lemma Next_pending:
  "pageErr it = Some e \<Longrightarrow> Next fn it w = Some (Inl e, it\<lparr> pageErr := None \<rparr>, w)"
  by (simp add: Next_def HasNext_pending)

lemma getNextPage_pureSource:
  "getNextPage (pureSource f) it w =
     (case f (pageToken it) of
        Inr (items, tok) \<Rightarrow> (\<lparr> pageToken = tok, pageErr = None, pageItems = items, nextPageItemIndex = 0 \<rparr>, w)
      | Inl e \<Rightarrow> (\<lparr> pageToken = [], pageErr = Some e, pageItems = [], nextPageItemIndex = 0 \<rparr>, w))"
  by (simp add: getNextPage_def pureSource_def split: sum.splits prod.splits)

text \<open>
  The state of an iterator over a run: no error is pending, the rest of the run \<open>ps\<close>
  starts at the iterator's token (and is empty when the token is), and the run has no
  failure. What is left to yield is the rest of the buffer and then the items of \<open>ps\<close>.
\<close>

lemma HasNext_more:
  assumes "pageErr it = None"
    and "if pageToken it = [] then ps = [] else page_chain f (pageToken it) ps"
    and "page_failure ps = None"
    and "drop (nextPageItemIndex it) (pageItems it) @ page_items ps = x # rest"
  shows "\<exists>it1 ps1. HasNext (pureSource f) it w = Some (True, it1, w)
           \<and> pageErr it1 = None \<and> nextPageItemIndex it1 < length (pageItems it1)
           \<and> (if pageToken it1 = [] then ps1 = [] else page_chain f (pageToken it1) ps1)
           \<and> page_failure ps1 = None
           \<and> drop (nextPageItemIndex it1) (pageItems it1) @ page_items ps1 = x # rest"
  using assms
proof (induction ps arbitrary: it)
  case Nil
  then have "nextPageItemIndex it < length (pageItems it)" by (cases "nextPageItemIndex it < length (pageItems it)") auto
  with Nil show ?case
    by (intro exI [of _ it] exI [of _ "[]"]) (simp add: HasNext_buffered)
next
  case (Cons p ps')
  show ?case
  proof (cases "nextPageItemIndex it < length (pageItems it)")
    case True
    with Cons.prems show ?thesis
      by (intro exI [of _ it] exI [of _ "p # ps'"]) (simp add: HasNext_buffered)
  next
    case False
    obtain t r where p: "p = (t, r)" by (cases p)
    from Cons.prems(2) have tok: "pageToken it \<noteq> []" by (auto split: if_splits)
    with Cons.prems(2) have chain: "page_chain f (pageToken it) ((t, r) # ps')" by (simp add: p)
    from Cons.prems(3) obtain items where r: "r = Inr items" and nofail: "page_failure ps' = None"
      by (cases r) (simp_all add: p)
    from chain r obtain tok' where f: "f (pageToken it) = Inr (items, tok')"
      and rest: "if tok' = [] then ps' = [] else page_chain f tok' ps'"
      by (auto split: sum.splits prod.splits)
    let ?it' = "\<lparr> pageToken = tok', pageErr = None, pageItems = items, nextPageItemIndex = 0 \<rparr>"
    have fetch: "getNextPage (pureSource f) it w = (?it', w)"
      by (simp add: getNextPage_pureSource f)
    have left: "drop (nextPageItemIndex ?it') (pageItems ?it') @ page_items ps' = x # rest"
      using Cons.prems(4) False by (simp add: p r)
    have "HasNext (pureSource f) it w = HasNext (pureSource f) ?it' w"
      using Cons.prems(1) False tok by (subst HasNext_refill) (simp_all add: fetch)
    moreover have "\<exists>it1 ps1. HasNext (pureSource f) ?it' w = Some (True, it1, w)
           \<and> pageErr it1 = None \<and> nextPageItemIndex it1 < length (pageItems it1)
           \<and> (if pageToken it1 = [] then ps1 = [] else page_chain f (pageToken it1) ps1)
           \<and> page_failure ps1 = None
           \<and> drop (nextPageItemIndex it1) (pageItems it1) @ page_items ps1 = x # rest"
      using rest nofail left by (intro Cons.IH) simp_all
    ultimately show ?thesis by simp
  qed
qed

lemma HasNext_exhausted:
  assumes "pageErr it = None"
    and "if pageToken it = [] then ps = [] else page_chain f (pageToken it) ps"
    and "page_failure ps = None"
    and "drop (nextPageItemIndex it) (pageItems it) @ page_items ps = []"
  shows "\<exists>it1. HasNext (pureSource f) it w = Some (False, it1, w)"
  using assms
proof (induction ps arbitrary: it)
  case Nil
  then show ?case
    by (intro exI [of _ it]) (auto simp: HasNext_end split: if_splits)
next
  case (Cons p ps')
  obtain t r where p: "p = (t, r)" by (cases p)
  from Cons.prems(4) have full: "length (pageItems it) \<le> nextPageItemIndex it" by simp
  from Cons.prems(2) have tok: "pageToken it \<noteq> []" by (auto split: if_splits)
  with Cons.prems(2) have chain: "page_chain f (pageToken it) ((t, r) # ps')" by (simp add: p)
  from Cons.prems(3) obtain items where r: "r = Inr items" and nofail: "page_failure ps' = None"
    by (cases r) (simp_all add: p)
  from chain r obtain tok' where f: "f (pageToken it) = Inr (items, tok')"
    and rest: "if tok' = [] then ps' = [] else page_chain f tok' ps'"
    by (auto split: sum.splits prod.splits)
  let ?it' = "\<lparr> pageToken = tok', pageErr = None, pageItems = items, nextPageItemIndex = 0 \<rparr>"
  have fetch: "getNextPage (pureSource f) it w = (?it', w)"
    by (simp add: getNextPage_pureSource f)
  have left: "drop (nextPageItemIndex ?it') (pageItems ?it') @ page_items ps' = []"
    using Cons.prems(4) by (simp add: p r)
  have "HasNext (pureSource f) it w = HasNext (pureSource f) ?it' w"
    using Cons.prems(1) full tok by (subst HasNext_refill) (simp_all add: fetch)
  moreover have "\<exists>it1. HasNext (pureSource f) ?it' w = Some (False, it1, w)"
    using rest nofail left by (intro Cons.IH) simp_all
  ultimately show ?case by simp
qed

lemma nextN_run:
  assumes "pageErr it = None"
    and "if pageToken it = [] then ps = [] else page_chain f (pageToken it) ps"
    and "page_failure ps = None"
    and "drop (nextPageItemIndex it) (pageItems it) @ page_items ps = items"
    and "k \<le> length items"
  shows "\<exists>it' ps'. nextN (pureSource f) k it w = Some (map Inr (take k items), it', w)
           \<and> pageErr it' = None
           \<and> (if pageToken it' = [] then ps' = [] else page_chain f (pageToken it') ps')
           \<and> page_failure ps' = None
           \<and> drop (nextPageItemIndex it') (pageItems it') @ page_items ps' = drop k items"
  using assms
proof (induction k arbitrary: it ps items)
  case 0
  then show ?case
    by (intro exI [of _ it] exI [of _ ps]) simp
next
  case (Suc k)
  from Suc.prems(5) obtain x rest where items: "items = x # rest" and k: "k \<le> length rest"
    by (cases items) auto
  from HasNext_more [OF Suc.prems(1) Suc.prems(2) Suc.prems(3) Suc.prems(4) [unfolded items], of w]
  obtain it1 ps1 where has: "HasNext (pureSource f) it w = Some (True, it1, w)"
    and it1: "pageErr it1 = None" "nextPageItemIndex it1 < length (pageItems it1)"
      "if pageToken it1 = [] then ps1 = [] else page_chain f (pageToken it1) ps1"
      "page_failure ps1 = None"
      "drop (nextPageItemIndex it1) (pageItems it1) @ page_items ps1 = x # rest"
    by (elim exE conjE) (rule that)
  let ?it2 = "it1\<lparr> nextPageItemIndex := Suc (nextPageItemIndex it1) \<rparr>"
  have split: "drop (nextPageItemIndex it1) (pageItems it1)
      = pageItems it1 ! nextPageItemIndex it1 # drop (Suc (nextPageItemIndex it1)) (pageItems it1)"
    using it1(2) by (simp add: Cons_nth_drop_Suc)
  with it1(5) have x: "pageItems it1 ! nextPageItemIndex it1 = x"
    and left: "drop (nextPageItemIndex ?it2) (pageItems ?it2) @ page_items ps1 = rest"
    by simp_all
  have nxt: "Next (pureSource f) it w = Some (Inr x, ?it2, w)"
    using it1(1,2) x by (simp add: Next_def has)
  have "\<exists>it' ps'. nextN (pureSource f) k ?it2 w = Some (map Inr (take k rest), it', w)
           \<and> pageErr it' = None
           \<and> (if pageToken it' = [] then ps' = [] else page_chain f (pageToken it') ps')
           \<and> page_failure ps' = None
           \<and> drop (nextPageItemIndex it') (pageItems it') @ page_items ps' = drop k rest"
    using it1(1,3,4) left k by (intro Suc.IH) simp_all
  then obtain it' ps' where run: "nextN (pureSource f) k ?it2 w = Some (map Inr (take k rest), it', w)"
    and it': "pageErr it' = None"
      "if pageToken it' = [] then ps' = [] else page_chain f (pageToken it') ps'"
      "page_failure ps' = None"
      "drop (nextPageItemIndex it') (pageItems it') @ page_items ps' = drop k rest"
    by (elim exE conjE) (rule that)
  have "nextN (pureSource f) (Suc k) it w = Some (map Inr (take (Suc k) items), it', w)"
    by (simp add: nxt run items)
  with it' show ?case
    by (intro exI [of _ it'] exI [of _ ps']) (simp add: items)
qed

lemma NewPagingIterator_run:
  assumes "page_chain f [] ps" and "page_failure ps = None"
  shows "\<exists>ps'. pageErr (fst (NewPagingIterator (pureSource f) w)) = None
      \<and> snd (NewPagingIterator (pureSource f) w) = w
      \<and> (if pageToken (fst (NewPagingIterator (pureSource f) w)) = [] then ps' = []
          else page_chain f (pageToken (fst (NewPagingIterator (pureSource f) w))) ps')
      \<and> page_failure ps' = None
      \<and> drop (nextPageItemIndex (fst (NewPagingIterator (pureSource f) w)))
               (pageItems (fst (NewPagingIterator (pureSource f) w))) @ page_items ps' = page_items ps"
proof -
  from assms(1) obtain t r ps' where ps: "ps = (t, r) # ps'" by (cases ps) auto
  from assms(2) obtain items where r: "r = Inr items" and nofail: "page_failure ps' = None"
    by (cases r) (simp_all add: ps)
  from assms(1) r obtain tok' where f: "f [] = Inr (items, tok')"
    and rest: "if tok' = [] then ps' = [] else page_chain f tok' ps'"
    by (auto simp: ps split: sum.splits prod.splits)
  have "NewPagingIterator (pureSource f) w
      = (\<lparr> pageToken = tok', pageErr = None, pageItems = items, nextPageItemIndex = 0 \<rparr>, w)"
    by (simp add: NewPagingIterator_def getNextPage_pureSource f)
  with rest nofail show ?thesis
    by (intro exI [of _ ps']) (simp add: ps r)
qed

text \<open>
  C7: over a run of a paged source that ends with an empty token and holds N items on its
  pages, the first N calls of \<^verbatim>\<open>Next\<close> on a new iterator return the N items, in order;
  after k of them \<^verbatim>\<open>HasNext\<close> answers true exactly when k is below N, so it is false
  only once the N-th item has been taken; and then \<^verbatim>\<open>Next\<close> fails with the
  no-more-items condition. The run ends at the first empty token: nothing is requested
  from the source after it.
\<close>

theorem PagingIterator_yields_every_item:
  "page_chain f [] ps \<and> page_failure ps = None \<and> k \<le> length (page_items ps) \<longrightarrow>
     (\<exists>it'. nextN (pureSource f) k (fst (NewPagingIterator (pureSource f) w)) (snd (NewPagingIterator (pureSource f) w))
               = Some (map Inr (take k (page_items ps)), it', w)
        \<and> (\<exists>it''. HasNext (pureSource f) it' w = Some (k < length (page_items ps), it'', w))
        \<and> (k = length (page_items ps) \<longrightarrow>
             (\<exists>it''. Next (pureSource f) it' w = Some (Inl NoMoreItems, it'', w))))"
proof (intro impI)
  assume asm: "page_chain f [] ps \<and> page_failure ps = None \<and> k \<le> length (page_items ps)"
  let ?it0 = "fst (NewPagingIterator (pureSource f) w)"
  from asm have chain: "page_chain f [] ps" and nofail: "page_failure ps = None"
    and k: "k \<le> length (page_items ps)" by simp_all
  from NewPagingIterator_run [OF chain nofail, of w]
  obtain ps0 where it0: "pageErr ?it0 = None" "snd (NewPagingIterator (pureSource f) w) = w"
      "if pageToken ?it0 = [] then ps0 = [] else page_chain f (pageToken ?it0) ps0"
      "page_failure ps0 = None"
      "drop (nextPageItemIndex ?it0) (pageItems ?it0) @ page_items ps0 = page_items ps"
    by (elim exE conjE) (rule that)
  from nextN_run [OF it0(1) it0(3) it0(4) it0(5) k, of w]
  obtain it' ps' where run: "nextN (pureSource f) k ?it0 w = Some (map Inr (take k (page_items ps)), it', w)"
    and it': "pageErr it' = None"
      "if pageToken it' = [] then ps' = [] else page_chain f (pageToken it') ps'"
      "page_failure ps' = None"
      "drop (nextPageItemIndex it') (pageItems it') @ page_items ps' = drop k (page_items ps)"
    by (elim exE conjE) (rule that)
  have has: "\<exists>it''. HasNext (pureSource f) it' w = Some (k < length (page_items ps), it'', w)"
  proof (cases "k < length (page_items ps)")
    case True
    then obtain x rest where "drop k (page_items ps) = x # rest"
      by (cases "drop k (page_items ps)") auto
    with HasNext_more [OF it'(1) it'(2) it'(3), of x rest w] it'(4) True
    show ?thesis by auto
  next
    case False
    then have "drop k (page_items ps) = []" by simp
    with HasNext_exhausted [OF it'(1) it'(2) it'(3), of w] it'(4) False
    show ?thesis by auto
  qed
  have nomore: "k = length (page_items ps) \<longrightarrow> (\<exists>it''. Next (pureSource f) it' w = Some (Inl NoMoreItems, it'', w))"
  proof
    assume "k = length (page_items ps)"
    with has obtain it'' where "HasNext (pureSource f) it' w = Some (False, it'', w)" by auto
    then show "\<exists>it''. Next (pureSource f) it' w = Some (Inl NoMoreItems, it'', w)"
      by (simp add: Next_def)
  qed
  from run has nomore it0(2)
  show "\<exists>it'. nextN (pureSource f) k ?it0 (snd (NewPagingIterator (pureSource f) w))
               = Some (map Inr (take k (page_items ps)), it', w)
        \<and> (\<exists>it''. HasNext (pureSource f) it' w = Some (k < length (page_items ps), it'', w))
        \<and> (k = length (page_items ps) \<longrightarrow>
             (\<exists>it''. Next (pureSource f) it' w = Some (Inl NoMoreItems, it'', w)))"
    by (intro exI [of _ it']) simp
qed

theorem PagingIterator_yields_every_item_witness:
  "page_chain (\<lambda>tok. if tok = [] then Inr ([10, 20 :: nat], [1])
                      else if tok = [1] then Inr ([], [1, 1])
                      else if tok = [1, 1] then Inr ([30], [])
                      else Inl (Underlying ''unknown token''))
      [] [([], Inr [10, 20]), ([1], Inr []), ([1, 1], Inr [30])]
   \<and> (\<exists>it'. nextN (pureSource (\<lambda>tok. if tok = [] then Inr ([10, 20 :: nat], [1])
                      else if tok = [1] then Inr ([], [1, 1])
                      else if tok = [1, 1] then Inr ([30], [])
                      else Inl (Underlying ''unknown token''))) 3
                (fst (NewPagingIterator (pureSource (\<lambda>tok. if tok = [] then Inr ([10, 20 :: nat], [1])
                      else if tok = [1] then Inr ([], [1, 1])
                      else if tok = [1, 1] then Inr ([30], [])
                      else Inl (Underlying ''unknown token''))) ()))
                (snd (NewPagingIterator (pureSource (\<lambda>tok. if tok = [] then Inr ([10, 20 :: nat], [1])
                      else if tok = [1] then Inr ([], [1, 1])
                      else if tok = [1, 1] then Inr ([30], [])
                      else Inl (Underlying ''unknown token''))) ()))
              = Some ([Inr 10, Inr 20, Inr 30], it', ())
         \<and> (\<exists>it''. HasNext (pureSource (\<lambda>tok. if tok = [] then Inr ([10, 20 :: nat], [1])
                      else if tok = [1] then Inr ([], [1, 1])
                      else if tok = [1, 1] then Inr ([30], [])
                      else Inl (Underlying ''unknown token''))) it' () = Some (False, it'', ()))
         \<and> (\<exists>it''. Next (pureSource (\<lambda>tok. if tok = [] then Inr ([10, 20 :: nat], [1])
                      else if tok = [1] then Inr ([], [1, 1])
                      else if tok = [1, 1] then Inr ([30], [])
                      else Inl (Underlying ''unknown token''))) it' () = Some (Inl NoMoreItems, it'', ())))"
  using PagingIterator_yields_every_item
          [of "\<lambda>tok. if tok = [] then Inr ([10, 20 :: nat], [1])
                      else if tok = [1] then Inr ([], [1, 1])
                      else if tok = [1, 1] then Inr ([30], [])
                      else Inl (Underlying ''unknown token'')"
              "[([], Inr [10, 20]), ([1], Inr []), ([1, 1], Inr [30])]" 3 "()"]
  by simp

section \<open>Properties of the shard-range scan\<close>

lemma remediationLines_Nil [simp]: "remediationLines [] = []"
  by (simp add: remediationLines_def)

lemma remediationLines_append:
  "remediationLines (xs @ ys) = remediationLines xs @ remediationLines ys"
  by (simp add: remediationLines_def)

lemma lineEvents_Nil [simp]: "lineEvents [] = []"
  by (simp add: lineEvents_def)

lemma lineEvents_append: "lineEvents (xs @ ys) = lineEvents xs @ lineEvents ys"
  by (simp add: lineEvents_def)

lemma written_append: "written (w @ w') = written w @ written w'"
  by (induction w rule: written.induct) simp_all

lemma written_lineEvents: "written (lineEvents ls) = ls"
  by (induction ls) (simp_all add: lineEvents_def)

lemma reportUnsupported_ok:
  assumes "\<And>w l. WriteString c w l = None" and "\<And>w. Sync c w = None"
  shows "reportUnsupported c execution w = (None, w @ lineEvents (remediationLines [execution]))"
  using assms
  by (simp add: reportUnsupported_def remediationLines_def stillOpenWithoutHistories_def lineEvents_def
      split: option.splits)

lemma getNextPage_paginationFunc:
  "getNextPage (paginationFunc c shardID) it w =
     (case ListConcreteExecutions c shardID (pageToken it) of
        Inr (items, tok) \<Rightarrow>
          (\<lparr> pageToken = tok, pageErr = None, pageItems = items, nextPageItemIndex = 0 \<rparr>,
           w @ [EvListConcreteExecutions shardID 1000 (pageToken it)])
      | Inl e \<Rightarrow>
          (\<lparr> pageToken = [], pageErr = Some e, pageItems = [], nextPageItemIndex = 0 \<rparr>,
           w @ [EvListConcreteExecutions shardID 1000 (pageToken it)]))"
  by (simp add: getNextPage_def paginationFunc_def split: sum.splits prod.splits)

lemma iterateExecutions_cong:
  assumes "HasNext (paginationFunc c shardID) it w = HasNext (paginationFunc c shardID) it' w'"
  shows "iterateExecutions c shardID it w = iterateExecutions c shardID it' w'"
  unfolding iterateExecutions.simps [of c shardID it w] iterateExecutions.simps [of c shardID it' w'] assms ..

lemma iterateExecutions_pending:
  assumes "pageErr it = Some e"
  shows "iterateExecutions c shardID it w = Some (Some (scanShardError shardID e), w)"
  unfolding iterateExecutions.simps [of c shardID it w]
  using assms by (simp add: HasNext_pending Next_pending)

lemma iterateExecutions_end:
  assumes "pageErr it = None" "length (pageItems it) \<le> nextPageItemIndex it" "pageToken it = []"
  shows "iterateExecutions c shardID it w = Some (None, w)"
  unfolding iterateExecutions.simps [of c shardID it w]
  using assms by (simp add: HasNext_end)

lemma iterateExecutions_item:
  assumes "\<And>w l. WriteString c w l = None" and "\<And>w. Sync c w = None"
    and "pageErr it = None" "nextPageItemIndex it < length (pageItems it)"
  shows "iterateExecutions c shardID it w =
     iterateExecutions c shardID (it\<lparr> nextPageItemIndex := Suc (nextPageItemIndex it) \<rparr>)
       (w @ lineEvents (remediationLines [pageItems it ! nextPageItemIndex it]))"
  unfolding iterateExecutions.simps [of c shardID it w]
  using assms(3,4) by (simp add: HasNext_buffered Next_buffered reportUnsupported_ok [OF assms(1,2)])

lemma iterateExecutions_buffer:
  assumes "\<And>w l. WriteString c w l = None" and "\<And>w. Sync c w = None"
    and "pageErr it = None" "n = length (pageItems it) - nextPageItemIndex it"
    and "nextPageItemIndex it \<le> length (pageItems it)"
  shows "iterateExecutions c shardID it w =
     iterateExecutions c shardID (it\<lparr> nextPageItemIndex := length (pageItems it) \<rparr>)
       (w @ lineEvents (remediationLines (drop (nextPageItemIndex it) (pageItems it))))"
  using assms(3-)
proof (induction n arbitrary: it w)
  case 0
  then have "nextPageItemIndex it = length (pageItems it)" by simp
  then have "it\<lparr> nextPageItemIndex := length (pageItems it) \<rparr> = it" by simp
  then show ?case using 0 by simp
next
  case (Suc n)
  then have lt: "nextPageItemIndex it < length (pageItems it)" by simp
  let ?it' = "it\<lparr> nextPageItemIndex := Suc (nextPageItemIndex it) \<rparr>"
  let ?x = "pageItems it ! nextPageItemIndex it"
  have "iterateExecutions c shardID it w
      = iterateExecutions c shardID ?it' (w @ lineEvents (remediationLines [?x]))"
    by (rule iterateExecutions_item [OF assms(1,2) Suc.prems(1) lt])
  also have "\<dots> = iterateExecutions c shardID (?it'\<lparr> nextPageItemIndex := length (pageItems ?it') \<rparr>)
       ((w @ lineEvents (remediationLines [?x]))
          @ lineEvents (remediationLines (drop (nextPageItemIndex ?it') (pageItems ?it'))))"
    using Suc.prems lt by (intro Suc.IH) simp_all
  also have "drop (nextPageItemIndex it) (pageItems it) = [?x] @ drop (Suc (nextPageItemIndex it)) (pageItems it)"
    using lt by (simp add: Cons_nth_drop_Suc)
  then have "(w @ lineEvents (remediationLines [?x]))
          @ lineEvents (remediationLines (drop (nextPageItemIndex ?it') (pageItems ?it')))
      = w @ lineEvents (remediationLines (drop (nextPageItemIndex it) (pageItems it)))"
    by (simp only: remediationLines_append lineEvents_append) simp
  finally show ?case by simp
qed

lemma iterateExecutions_fetched:
  assumes "\<And>w l. WriteString c w l = None" and "\<And>w. Sync c w = None"
    and "page_chain (ListConcreteExecutions c shardID) (pageToken it0) ps"
  shows "iterateExecutions c shardID (fst (getNextPage (paginationFunc c shardID) it0 w))
           (snd (getNextPage (paginationFunc c shardID) it0 w))
         = Some (map_option (scanShardError shardID) (page_failure ps),
                 w @ concat (map (pageEvents shardID) ps))"
  using assms(3)
proof (induction ps arbitrary: it0 w)
  case Nil
  then show ?case by simp
next
  case (Cons p ps')
  obtain t r where p: "p = (t, r)" by (cases p)
  let ?w1 = "w @ [EvListConcreteExecutions shardID 1000 (pageToken it0)]"
  from Cons.prems have t: "t = pageToken it0" by (simp add: p)
  show ?case
  proof (cases "ListConcreteExecutions c shardID (pageToken it0)")
    case (Inl e)
    with Cons.prems have r: "r = Inl e" and ps': "ps' = []" by (simp_all add: p)
    let ?it1 = "\<lparr> pageToken = [], pageErr = Some e, pageItems = [], nextPageItemIndex = 0 \<rparr>
                  :: ListConcreteExecutionsEntity PagingIterator"
    have "getNextPage (paginationFunc c shardID) it0 w = (?it1, ?w1)"
      by (simp add: getNextPage_paginationFunc Inl)
    moreover have "iterateExecutions c shardID ?it1 ?w1 = Some (Some (scanShardError shardID e), ?w1)"
      by (rule iterateExecutions_pending) simp
    ultimately show ?thesis by (simp add: p r ps' t)
  next
    case (Inr page)
    obtain items tok' where page: "page = (items, tok')" by (cases page)
    from Cons.prems Inr have r: "r = Inr items"
      and rest: "if tok' = [] then ps' = [] else page_chain (ListConcreteExecutions c shardID) tok' ps'"
      by (simp_all add: p page)
    let ?it1 = "\<lparr> pageToken = tok', pageErr = None, pageItems = items, nextPageItemIndex = 0 \<rparr>"
    let ?it2 = "?it1\<lparr> nextPageItemIndex := length (pageItems ?it1) \<rparr>"
    let ?w2 = "?w1 @ lineEvents (remediationLines items)"
    have fetch: "getNextPage (paginationFunc c shardID) it0 w = (?it1, ?w1)"
      by (simp add: getNextPage_paginationFunc Inr page)
    have "iterateExecutions c shardID ?it1 ?w1
        = iterateExecutions c shardID ?it2
            (?w1 @ lineEvents (remediationLines (drop (nextPageItemIndex ?it1) (pageItems ?it1))))"
      by (rule iterateExecutions_buffer [OF assms(1,2)]) simp_all
    then have buffer: "iterateExecutions c shardID ?it1 ?w1 = iterateExecutions c shardID ?it2 ?w2"
      by simp
    show ?thesis
    proof (cases "tok' = []")
      case True
      with rest have ps': "ps' = []" by simp
      have "iterateExecutions c shardID ?it2 ?w2 = Some (None, ?w2)"
        by (rule iterateExecutions_end) (simp_all add: True)
      with buffer fetch show ?thesis by (simp add: p r ps' t)
    next
      case False
      with rest have chain: "page_chain (ListConcreteExecutions c shardID) (pageToken ?it2) ps'" by simp
      have "HasNext (paginationFunc c shardID) ?it2 ?w2
          = HasNext (paginationFunc c shardID) (fst (getNextPage (paginationFunc c shardID) ?it2 ?w2))
              (snd (getNextPage (paginationFunc c shardID) ?it2 ?w2))"
        by (rule HasNext_refill) (simp_all add: False)
      then have "iterateExecutions c shardID ?it2 ?w2
          = iterateExecutions c shardID (fst (getNextPage (paginationFunc c shardID) ?it2 ?w2))
              (snd (getNextPage (paginationFunc c shardID) ?it2 ?w2))"
        by (rule iterateExecutions_cong)
      also have "\<dots> = Some (map_option (scanShardError shardID) (page_failure ps'),
                 ?w2 @ concat (map (pageEvents shardID) ps'))"
        by (rule Cons.IH [OF chain])
      finally show ?thesis using buffer fetch by (simp add: p r t)
    qed
  qed
qed

lemma listExecutionsByShardID_run:
  assumes "\<And>w l. WriteString c w l = None" and "\<And>w. Sync c w = None"
    and "initializeExecutionStore c shardID = None"
    and "page_chain (ListConcreteExecutions c shardID) [] ps"
  shows "listExecutionsByShardID c shardID w
         = Some (map_option (scanShardError shardID) (page_failure ps), w @ shardEvents shardID ps)"
proof -
  let ?init = "\<lparr> pageToken = [], pageErr = None, pageItems = [], nextPageItemIndex = 0 \<rparr>
                 :: ListConcreteExecutionsEntity PagingIterator"
  have "page_chain (ListConcreteExecutions c shardID) (pageToken ?init) ps"
    using assms(4) by simp
  from iterateExecutions_fetched [OF assms(1,2) this, of "w @ [EvInitStore shardID]"]
  show ?thesis
    by (simp add: listExecutionsByShardID_def assms(3) NewPagingIterator_def shardEvents_def case_prod_beta)
qed

lemma scanShards_step:
  assumes "i \<le> endShardID" and "listExecutionsByShardID c i w = Some (None, w')"
  shows "scanShards c i endShardID w
         = scanShards c (int_incr i) endShardID (w' @ [EvStdout (shardCompleted i)])"
  unfolding scanShards.simps [of c i endShardID w] using assms by simp

lemma scanShards_stop:
  assumes "i \<le> endShardID" and "listExecutionsByShardID c i w = Some (Some e, w')"
  shows "scanShards c i endShardID w = Some (Some e, w')"
  unfolding scanShards.simps [of c i endShardID w] using assms by simp

lemma scanShards_done:
  assumes "endShardID < i"
  shows "scanShards c i endShardID w = Some (None, w)"
  unfolding scanShards.simps [of c i endShardID w] using assms by simp

lemma scanShards_run:
  assumes "\<And>w l. WriteString c w l = None" and "\<And>w. Sync c w = None"
    and "endShardID < 9223372036854775807"
    and "\<And>s. i \<le> s \<Longrightarrow> s \<le> endShardID \<Longrightarrow>
           initializeExecutionStore c s = None
           \<and> page_chain (ListConcreteExecutions c s) [] (pages s) \<and> page_failure (pages s) = None"
    and "n = nat (endShardID + 1 - i)"
  shows "scanShards c i endShardID w
         = Some (None, w @ concat (map (\<lambda>s. shardEvents s (pages s) @ [EvStdout (shardCompleted s)]) [i..endShardID]))"
  using assms(4,5)
proof (induction n arbitrary: i w)
  case 0
  then have "endShardID < i" by simp
  then show ?case by (simp add: scanShards_done)
next
  case (Suc n)
  then have le: "i \<le> endShardID" by simp
  with Suc.prems(1) [of i] have ok: "initializeExecutionStore c i = None"
    "page_chain (ListConcreteExecutions c i) [] (pages i)" "page_failure (pages i) = None"
    by simp_all
  have shard: "listExecutionsByShardID c i w = Some (None, w @ shardEvents i (pages i))"
    using listExecutionsByShardID_run [OF assms(1,2) ok(1,2), of w] ok(3) by simp
  have incr: "int_incr i = i + 1"
    using le assms(3) by (simp add: int_incr_def)
  have "scanShards c i endShardID w
      = scanShards c (i + 1) endShardID (w @ shardEvents i (pages i) @ [EvStdout (shardCompleted i)])"
    using scanShards_step [OF le shard] incr by simp
  also have "\<dots> = Some (None, (w @ shardEvents i (pages i) @ [EvStdout (shardCompleted i)])
        @ concat (map (\<lambda>s. shardEvents s (pages s) @ [EvStdout (shardCompleted s)]) [i + 1..endShardID]))"
    using Suc.prems by (intro Suc.IH) simp_all
  finally show ?case
    by (subst upto_rec1 [OF le]) simp
qed

lemma scanShards_abort:
  assumes "\<And>w l. WriteString c w l = None" and "\<And>w. Sync c w = None"
    and "endShardID \<le> 9223372036854775807" and "k \<le> endShardID"
    and "initializeExecutionStore c k = None"
    and "page_chain (ListConcreteExecutions c k) [] (pages k)" and "page_failure (pages k) = Some e"
    and "\<And>s. i \<le> s \<Longrightarrow> s < k \<Longrightarrow>
           initializeExecutionStore c s = None
           \<and> page_chain (ListConcreteExecutions c s) [] (pages s) \<and> page_failure (pages s) = None"
    and "i \<le> k" and "n = nat (k - i)"
  shows "scanShards c i endShardID w
         = Some (Some (scanShardError k e),
                 w @ concat (map (\<lambda>s. shardEvents s (pages s) @ [EvStdout (shardCompleted s)]) [i..k - 1])
                   @ shardEvents k (pages k))"
  using assms(8-)
proof (induction n arbitrary: i w)
  case 0
  then have i: "i = k" by simp
  have "listExecutionsByShardID c k w = Some (Some (scanShardError k e), w @ shardEvents k (pages k))"
    using listExecutionsByShardID_run [OF assms(1,2,5,6), of w] assms(7) by simp
  with assms(4) show ?case
    by (simp add: i scanShards_stop)
next
  case (Suc n)
  then have lt: "i < k" by simp
  with assms(4) have le: "i \<le> endShardID" by simp
  from Suc.prems(1) [of i] lt have ok: "initializeExecutionStore c i = None"
    "page_chain (ListConcreteExecutions c i) [] (pages i)" "page_failure (pages i) = None"
    by simp_all
  have shard: "listExecutionsByShardID c i w = Some (None, w @ shardEvents i (pages i))"
    using listExecutionsByShardID_run [OF assms(1,2) ok(1,2), of w] ok(3) by simp
  have incr: "int_incr i = i + 1"
    using lt assms(3,4) by (simp add: int_incr_def)
  have "scanShards c i endShardID w
      = scanShards c (i + 1) endShardID (w @ shardEvents i (pages i) @ [EvStdout (shardCompleted i)])"
    using scanShards_step [OF le shard] incr by simp
  also have "\<dots> = Some (Some (scanShardError k e),
        (w @ shardEvents i (pages i) @ [EvStdout (shardCompleted i)])
        @ concat (map (\<lambda>s. shardEvents s (pages s) @ [EvStdout (shardCompleted s)]) [i + 1..k - 1])
        @ shardEvents k (pages k))"
    using Suc.prems lt by (intro Suc.IH) simp_all
  finally show ?case
    using lt by (subst upto_rec1 [of i "k - 1"]) simp_all
qed

lemma written_pageEvents:
  "written (concat (map (pageEvents shardID) ps)) = remediationLines (page_items ps)"
proof (induction ps rule: page_items.induct)
  case 1
  show ?case by simp
next
  case (2 t items ps)
  then show ?case
    by (simp add: written_append written_lineEvents remediationLines_append)
next
  case (3 t e ps)
  then show ?case by simp
qed

lemma written_shardEvents:
  "written (shardEvents shardID ps) = remediationLines (page_items ps)"
  by (simp add: shardEvents_def written_append written_pageEvents)

lemma written_shards:
  "written (concat (map (\<lambda>s. shardEvents s (pages s) @ [EvStdout (shardCompleted s)]) shards))
   = concat (map (\<lambda>s. remediationLines (page_items (pages s))) shards)"
  by (induction shards) (simp_all add: written_append written_shardEvents)

lemma AdminDBScanUnsupportedWorkflow_run:
  assumes "getOutputFile c = None"
    and "\<And>w l. WriteString c w l = None" and "\<And>w. Sync c w = None"
    and "FlagUpperShardBound c < 9223372036854775807"
    and "\<And>s. FlagLowerShardBound c \<le> s \<Longrightarrow> s \<le> FlagUpperShardBound c \<Longrightarrow>
           initializeExecutionStore c s = None
           \<and> page_chain (ListConcreteExecutions c s) [] (pages s) \<and> page_failure (pages s) = None"
  shows "AdminDBScanUnsupportedWorkflow c w
         = Some (None, w @ concat (map (\<lambda>s. shardEvents s (pages s) @ [EvStdout (shardCompleted s)])
                                    [FlagLowerShardBound c..FlagUpperShardBound c]) @ [EvCloseFile])"
  using scanShards_run [OF assms(2,3,4,5) refl, where w = w]
  by (simp add: AdminDBScanUnsupportedWorkflow_def assms(1))

lemma reportUnsupported_advances:
  "fst (reportUnsupported c execution w) = None \<Longrightarrow>
   snd (reportUnsupported c execution w) = w @ lineEvents (remediationLines [execution])"
  by (auto simp: reportUnsupported_def remediationLines_def stillOpenWithoutHistories_def lineEvents_def
      split: option.splits if_splits)

text \<open>
  C5: an execution gets a remediation line exactly when its close status is 0 and its
  version histories are absent. The line names the domain, the workflow id and the run id
  of that execution; an execution that does not match leaves the output as it was,
  whatever the file does; and over a whole scan that completes on a file that takes every
  write, the lines written are the lines of the matching executions of the shards of the
  range, so that a shard without a match contributes none.
\<close>

theorem remediation_line_iff_open_without_histories:
  "remediationLines [execution] =
     (if (case ExecutionInfo execution of None \<Rightarrow> False | Some info \<Rightarrow> CloseStatus info = 0)
         \<and> VersionHistories execution = None
      then [''cadence --address <host>:<port> --domain <'' @ DomainID (the (ExecutionInfo execution))
            @ ''> workflow reset --wid '' @ WorkflowID (the (ExecutionInfo execution))
            @ '' --rid '' @ RunID (the (ExecutionInfo execution))
            @ '' --reset_type LastDecisionCompleted --reason 'release 0.16 upgrade'' @ [CHR 0x27, CHR 0x0A]]
      else [])
   \<and> ((\<forall>w l. WriteString c w l = None) \<and> (\<forall>w. Sync c w = None) \<longrightarrow>
        fst (reportUnsupported c execution w) = None
        \<and> written (snd (reportUnsupported c execution w)) = written w @ remediationLines [execution])
   \<and> (\<not> ((case ExecutionInfo execution of None \<Rightarrow> False | Some info \<Rightarrow> CloseStatus info = 0)
           \<and> VersionHistories execution = None) \<longrightarrow>
        reportUnsupported c execution w = (None, w))
   \<and> (getOutputFile c = None \<and> (\<forall>w l. WriteString c w l = None) \<and> (\<forall>w. Sync c w = None)
        \<and> FlagUpperShardBound c < 9223372036854775807
        \<and> (\<forall>s. FlagLowerShardBound c \<le> s \<and> s \<le> FlagUpperShardBound c \<longrightarrow>
              initializeExecutionStore c s = None
              \<and> page_chain (ListConcreteExecutions c s) [] (pages s) \<and> page_failure (pages s) = None)
      \<longrightarrow> (\<exists>w'. AdminDBScanUnsupportedWorkflow c w = Some (None, w')
                \<and> written w' = written w @ concat (map (\<lambda>s. remediationLines (page_items (pages s)))
                                                    [FlagLowerShardBound c..FlagUpperShardBound c])))"
proof (intro conjI impI)
  show "remediationLines [execution] =
     (if (case ExecutionInfo execution of None \<Rightarrow> False | Some info \<Rightarrow> CloseStatus info = 0)
         \<and> VersionHistories execution = None
      then [''cadence --address <host>:<port> --domain <'' @ DomainID (the (ExecutionInfo execution))
            @ ''> workflow reset --wid '' @ WorkflowID (the (ExecutionInfo execution))
            @ '' --rid '' @ RunID (the (ExecutionInfo execution))
            @ '' --reset_type LastDecisionCompleted --reason 'release 0.16 upgrade'' @ [CHR 0x27, CHR 0x0A]]
      else [])"
    by (simp add: remediationLines_def stillOpenWithoutHistories_def outStr_def)
next
  assume ok: "(\<forall>w l. WriteString c w l = None) \<and> (\<forall>w. Sync c w = None)"
  then have "reportUnsupported c execution w = (None, w @ lineEvents (remediationLines [execution]))"
    by (intro reportUnsupported_ok) simp_all
  then show "fst (reportUnsupported c execution w) = None"
    and "written (snd (reportUnsupported c execution w)) = written w @ remediationLines [execution]"
    by (simp_all add: written_append written_lineEvents)
next
  assume "\<not> ((case ExecutionInfo execution of None \<Rightarrow> False | Some info \<Rightarrow> CloseStatus info = 0)
           \<and> VersionHistories execution = None)"
  then show "reportUnsupported c execution w = (None, w)"
    by (auto simp: reportUnsupported_def split: option.splits)
next
  assume run: "getOutputFile c = None \<and> (\<forall>w l. WriteString c w l = None) \<and> (\<forall>w. Sync c w = None)
        \<and> FlagUpperShardBound c < 9223372036854775807
        \<and> (\<forall>s. FlagLowerShardBound c \<le> s \<and> s \<le> FlagUpperShardBound c \<longrightarrow>
              initializeExecutionStore c s = None
              \<and> page_chain (ListConcreteExecutions c s) [] (pages s) \<and> page_failure (pages s) = None)"
  then have "AdminDBScanUnsupportedWorkflow c w
         = Some (None, w @ concat (map (\<lambda>s. shardEvents s (pages s) @ [EvStdout (shardCompleted s)])
                                    [FlagLowerShardBound c..FlagUpperShardBound c]) @ [EvCloseFile])"
    by (intro AdminDBScanUnsupportedWorkflow_run) simp_all
  then show "\<exists>w'. AdminDBScanUnsupportedWorkflow c w = Some (None, w')
                \<and> written w' = written w @ concat (map (\<lambda>s. remediationLines (page_items (pages s)))
                                                    [FlagLowerShardBound c..FlagUpperShardBound c])"
    by (simp add: written_append written_shards)
qed

theorem remediation_line_iff_open_without_histories_witness:
  "remediationLines [openExecution] = [outStr \<lparr> DomainID = ''domain-1'', WorkflowID = ''wf-open'', RunID = ''run-1'', CloseStatus = 0 \<rparr>]
   \<and> written (snd (reportUnsupported (exampleContext 0 2) openExecution [])) = remediationLines [openExecution]
   \<and> reportUnsupported (exampleContext 0 2) versionedExecution [] = (None, [])
   \<and> (\<exists>w'. AdminDBScanUnsupportedWorkflow (exampleContext 0 2) [] = Some (None, w')
          \<and> written w' = [outStr \<lparr> DomainID = ''domain-1'', WorkflowID = ''wf-open'', RunID = ''run-1'', CloseStatus = 0 \<rparr>])"
proof -
  have pages: "\<forall>s. FlagLowerShardBound (exampleContext 0 2) \<le> s \<and> s \<le> FlagUpperShardBound (exampleContext 0 2) \<longrightarrow>
      initializeExecutionStore (exampleContext 0 2) s = None
      \<and> page_chain (ListConcreteExecutions (exampleContext 0 2) s) [] (examplePages s)
      \<and> page_failure (examplePages s) = None"
    by (simp add: exampleContext_def exampleStore_def examplePages_def)
  have "[0..2::int] = [0, 1, 2]"
    by (simp add: upto_rec1)
  then have lines: "concat (map (\<lambda>s. remediationLines (page_items (examplePages s))) [0..2])
      = [outStr \<lparr> DomainID = ''domain-1'', WorkflowID = ''wf-open'', RunID = ''run-1'', CloseStatus = 0 \<rparr>]"
    by (simp add: examplePages_def remediationLines_def stillOpenWithoutHistories_def
        openExecution_def closedExecution_def bareExecution_def versionedExecution_def)
  have one: "remediationLines [openExecution]
      = [outStr \<lparr> DomainID = ''domain-1'', WorkflowID = ''wf-open'', RunID = ''run-1'', CloseStatus = 0 \<rparr>]"
    by (simp add: remediationLines_def stillOpenWithoutHistories_def openExecution_def)
  from remediation_line_iff_open_without_histories [of openExecution "exampleContext 0 2" "[]" examplePages]
    remediation_line_iff_open_without_histories [of versionedExecution "exampleContext 0 2" "[]" examplePages]
    pages lines one
  show ?thesis
    by (simp add: exampleContext_def versionedExecution_def)
qed

lemma AdminDBScanUnsupportedWorkflow_abort:
  assumes "getOutputFile c = None"
    and "\<And>w l. WriteString c w l = None" and "\<And>w. Sync c w = None"
    and "FlagUpperShardBound c \<le> 9223372036854775807"
    and "FlagLowerShardBound c \<le> k" and "k \<le> FlagUpperShardBound c"
    and "\<And>s. FlagLowerShardBound c \<le> s \<Longrightarrow> s < k \<Longrightarrow>
           initializeExecutionStore c s = None
           \<and> page_chain (ListConcreteExecutions c s) [] (pages s) \<and> page_failure (pages s) = None"
    and "initializeExecutionStore c k = None"
    and "page_chain (ListConcreteExecutions c k) [] (pages k)" and "page_failure (pages k) = Some e"
  shows "AdminDBScanUnsupportedWorkflow c w
         = Some (Some (scanShardError k e),
                 w @ concat (map (\<lambda>s. shardEvents s (pages s) @ [EvStdout (shardCompleted s)])
                            [FlagLowerShardBound c..k - 1])
                   @ shardEvents k (pages k) @ [EvCloseFile])"
  using scanShards_abort [OF assms(2,3,4,6,8,9,10,7,5) refl, where w = w]
  by (simp add: AdminDBScanUnsupportedWorkflow_def assms(1))

text \<open>
  C6: on a file that takes every write, with the upper bound below the largest Go
  \<^verbatim>\<open>int\<close>, a scan over shards that all list to the end does, in this order and nothing
  else: for each shard of the inclusive range, ascending, open its store, request its
  pages in pagination order, after each page write the line of each matching execution of
  the page, in the order of the page, each write followed at once by the sync, close the
  store and report the shard completed; then close the file and return no error. When
  the listing of shard \<open>k\<close> fails, the shards before it having listed to the end, the scan
  does the same up to the failing request, writes nothing after it, and returns the error
  that carries the decimal shard id \<open>k\<close> in its message and the store's error as its cause.
  And whatever the file does, the loop only goes on to the next execution after writing
  nothing or after a write followed by its sync.
\<close>

theorem AdminDBScanUnsupportedWorkflow_order:
  "(getOutputFile c = None \<and> (\<forall>w l. WriteString c w l = None) \<and> (\<forall>w. Sync c w = None)
      \<and> FlagUpperShardBound c < 9223372036854775807
      \<and> (\<forall>s. FlagLowerShardBound c \<le> s \<and> s \<le> FlagUpperShardBound c \<longrightarrow>
            initializeExecutionStore c s = None
            \<and> page_chain (ListConcreteExecutions c s) [] (pages s) \<and> page_failure (pages s) = None)
    \<longrightarrow> AdminDBScanUnsupportedWorkflow c w
          = Some (None, w @ concat (map (\<lambda>s. shardEvents s (pages s) @ [EvStdout (shardCompleted s)])
                                     [FlagLowerShardBound c..FlagUpperShardBound c]) @ [EvCloseFile]))
   \<and> (getOutputFile c = None \<and> (\<forall>w l. WriteString c w l = None) \<and> (\<forall>w. Sync c w = None)
      \<and> FlagUpperShardBound c \<le> 9223372036854775807
      \<and> FlagLowerShardBound c \<le> k \<and> k \<le> FlagUpperShardBound c
      \<and> (\<forall>s. FlagLowerShardBound c \<le> s \<and> s < k \<longrightarrow>
            initializeExecutionStore c s = None
            \<and> page_chain (ListConcreteExecutions c s) [] (pages s) \<and> page_failure (pages s) = None)
      \<and> initializeExecutionStore c k = None
      \<and> page_chain (ListConcreteExecutions c k) [] (pages k) \<and> page_failure (pages k) = Some e
    \<longrightarrow> AdminDBScanUnsupportedWorkflow c w
          = Some (Some (PrintableError
                          (''Failed to scan shard ID: '' @ fmt_int k @ '' for unsupported workflow. Please retry.'')
                          (Some e)),
                  w @ concat (map (\<lambda>s. shardEvents s (pages s) @ [EvStdout (shardCompleted s)])
                             [FlagLowerShardBound c..k - 1])
                    @ shardEvents k (pages k) @ [EvCloseFile]))
   \<and> (fst (reportUnsupported c execution w) = None \<longrightarrow>
        snd (reportUnsupported c execution w) = w @ lineEvents (remediationLines [execution]))"
proof (intro conjI impI)
  assume "getOutputFile c = None \<and> (\<forall>w l. WriteString c w l = None) \<and> (\<forall>w. Sync c w = None)
      \<and> FlagUpperShardBound c < 9223372036854775807
      \<and> (\<forall>s. FlagLowerShardBound c \<le> s \<and> s \<le> FlagUpperShardBound c \<longrightarrow>
            initializeExecutionStore c s = None
            \<and> page_chain (ListConcreteExecutions c s) [] (pages s) \<and> page_failure (pages s) = None)"
  then show "AdminDBScanUnsupportedWorkflow c w
          = Some (None, w @ concat (map (\<lambda>s. shardEvents s (pages s) @ [EvStdout (shardCompleted s)])
                                     [FlagLowerShardBound c..FlagUpperShardBound c]) @ [EvCloseFile])"
    by (intro AdminDBScanUnsupportedWorkflow_run) simp_all
next
  assume "getOutputFile c = None \<and> (\<forall>w l. WriteString c w l = None) \<and> (\<forall>w. Sync c w = None)
      \<and> FlagUpperShardBound c \<le> 9223372036854775807
      \<and> FlagLowerShardBound c \<le> k \<and> k \<le> FlagUpperShardBound c
      \<and> (\<forall>s. FlagLowerShardBound c \<le> s \<and> s < k \<longrightarrow>
            initializeExecutionStore c s = None
            \<and> page_chain (ListConcreteExecutions c s) [] (pages s) \<and> page_failure (pages s) = None)
      \<and> initializeExecutionStore c k = None
      \<and> page_chain (ListConcreteExecutions c k) [] (pages k) \<and> page_failure (pages k) = Some e"
  then have "AdminDBScanUnsupportedWorkflow c w
         = Some (Some (scanShardError k e),
                 w @ concat (map (\<lambda>s. shardEvents s (pages s) @ [EvStdout (shardCompleted s)])
                            [FlagLowerShardBound c..k - 1])
                   @ shardEvents k (pages k) @ [EvCloseFile])"
    by (intro AdminDBScanUnsupportedWorkflow_abort) simp_all
  then show "AdminDBScanUnsupportedWorkflow c w
          = Some (Some (PrintableError
                          (''Failed to scan shard ID: '' @ fmt_int k @ '' for unsupported workflow. Please retry.'')
                          (Some e)),
                  w @ concat (map (\<lambda>s. shardEvents s (pages s) @ [EvStdout (shardCompleted s)])
                             [FlagLowerShardBound c..k - 1])
                    @ shardEvents k (pages k) @ [EvCloseFile])"
    by (simp add: scanShardError_def)
next
  assume "fst (reportUnsupported c execution w) = None"
  then show "snd (reportUnsupported c execution w) = w @ lineEvents (remediationLines [execution])"
    by (rule reportUnsupported_advances)
qed

theorem AdminDBScanUnsupportedWorkflow_order_witness:
  "AdminDBScanUnsupportedWorkflow (exampleContext 0 2) []
     = Some (None,
         [EvInitStore 0, EvListConcreteExecutions 0 1000 [], EvCloseStore 0,
          EvStdout (''Shard 0 scan operation is completed.'' @ [CHR 0x0A]),
          EvInitStore 1, EvListConcreteExecutions 1 1000 [],
          EvWriteString (''cadence --address <host>:<port> --domain <domain-1> workflow reset --wid wf-open''
                         @ '' --rid run-1 --reset_type LastDecisionCompleted --reason 'release 0.16 upgrade''
                         @ [CHR 0x27, CHR 0x0A]),
          EvSync, EvListConcreteExecutions 1 1000 [1], EvCloseStore 1,
          EvStdout (''Shard 1 scan operation is completed.'' @ [CHR 0x0A]),
          EvInitStore 2, EvListConcreteExecutions 2 1000 [], EvCloseStore 2,
          EvStdout (''Shard 2 scan operation is completed.'' @ [CHR 0x0A]),
          EvCloseFile])
   \<and> AdminDBScanUnsupportedWorkflow (exampleContext 2 4) []
     = Some (Some (PrintableError ''Failed to scan shard ID: 3 for unsupported workflow. Please retry.''
                     (Some (Underlying ''timeout''))),
         [EvInitStore 2, EvListConcreteExecutions 2 1000 [], EvCloseStore 2,
          EvStdout (''Shard 2 scan operation is completed.'' @ [CHR 0x0A]),
          EvInitStore 3, EvListConcreteExecutions 3 1000 [], EvCloseStore 3, EvCloseFile])
   \<and> snd (reportUnsupported (exampleContext 0 2) openExecution [])
     = [EvWriteString (''cadence --address <host>:<port> --domain <domain-1> workflow reset --wid wf-open''
                       @ '' --rid run-1 --reset_type LastDecisionCompleted --reason 'release 0.16 upgrade''
                       @ [CHR 0x27, CHR 0x0A]),
        EvSync]"
proof -
  let ?line = "''cadence --address <host>:<port> --domain <domain-1> workflow reset --wid wf-open''
               @ '' --rid run-1 --reset_type LastDecisionCompleted --reason 'release 0.16 upgrade''
               @ [CHR 0x27, CHR 0x0A]"
  have range1: "[0..2::int] = [0, 1, 2]" and range2: "[2..3 - 1::int] = [2]"
    by (simp_all add: upto_rec1)
  have rendered: "fmt_int 3 = ''3''"
      "shardCompleted 0 = ''Shard 0 scan operation is completed.'' @ [CHR 0x0A]"
      "shardCompleted 1 = ''Shard 1 scan operation is completed.'' @ [CHR 0x0A]"
      "shardCompleted 2 = ''Shard 2 scan operation is completed.'' @ [CHR 0x0A]"
    by (simp_all add: shardCompleted_def fmt_int_def fmt_nat.simps digit_char_def)
  have pages1: "\<forall>s. FlagLowerShardBound (exampleContext 0 2) \<le> s \<and> s \<le> FlagUpperShardBound (exampleContext 0 2) \<longrightarrow>
      initializeExecutionStore (exampleContext 0 2) s = None
      \<and> page_chain (ListConcreteExecutions (exampleContext 0 2) s) [] (examplePages s)
      \<and> page_failure (examplePages s) = None"
    by (simp add: exampleContext_def exampleStore_def examplePages_def)
  have pages2: "\<forall>s. FlagLowerShardBound (exampleContext 2 4) \<le> s \<and> s < 3 \<longrightarrow>
      initializeExecutionStore (exampleContext 2 4) s = None
      \<and> page_chain (ListConcreteExecutions (exampleContext 2 4) s) [] (examplePages s)
      \<and> page_failure (examplePages s) = None"
    by (simp add: exampleContext_def exampleStore_def examplePages_def)
  have pages3: "page_chain (ListConcreteExecutions (exampleContext 2 4) 3) [] (examplePages 3)
      \<and> page_failure (examplePages 3) = Some (Underlying ''timeout'')"
    by (simp add: exampleContext_def exampleStore_def examplePages_def)
  have lines: "remediationLines [openExecution, closedExecution, bareExecution] = [?line]"
      "remediationLines [versionedExecution] = []"
      "remediationLines [openExecution] = [?line]"
    by (simp_all add: remediationLines_def stillOpenWithoutHistories_def outStr_def
        openExecution_def closedExecution_def bareExecution_def versionedExecution_def)
  have first: "fst (reportUnsupported (exampleContext 0 2) openExecution []) = None"
    by (simp add: reportUnsupported_def exampleContext_def openExecution_def)
  from AdminDBScanUnsupportedWorkflow_order
         [where c = "exampleContext 0 2" and pages = examplePages and k = 0 and e = "Underlying ''timeout''"
            and w = "[]" and execution = openExecution]
    pages1 range1 lines first rendered
  have a: "AdminDBScanUnsupportedWorkflow (exampleContext 0 2) []
     = Some (None,
         [EvInitStore 0, EvListConcreteExecutions 0 1000 [], EvCloseStore 0,
          EvStdout (''Shard 0 scan operation is completed.'' @ [CHR 0x0A]),
          EvInitStore 1, EvListConcreteExecutions 1 1000 [],
          EvWriteString ?line,
          EvSync, EvListConcreteExecutions 1 1000 [1], EvCloseStore 1,
          EvStdout (''Shard 1 scan operation is completed.'' @ [CHR 0x0A]),
          EvInitStore 2, EvListConcreteExecutions 2 1000 [], EvCloseStore 2,
          EvStdout (''Shard 2 scan operation is completed.'' @ [CHR 0x0A]),
          EvCloseFile])"
    and c: "snd (reportUnsupported (exampleContext 0 2) openExecution []) = [EvWriteString ?line, EvSync]"
    by (simp_all add: exampleContext_def shardEvents_def examplePages_def lineEvents_def)
  from AdminDBScanUnsupportedWorkflow_order
         [where c = "exampleContext 2 4" and pages = examplePages and k = 3 and e = "Underlying ''timeout''"
            and w = "[]" and execution = openExecution]
    pages2 pages3 range2 rendered
  have b: "AdminDBScanUnsupportedWorkflow (exampleContext 2 4) []
     = Some (Some (PrintableError ''Failed to scan shard ID: 3 for unsupported workflow. Please retry.''
                     (Some (Underlying ''timeout''))),
         [EvInitStore 2, EvListConcreteExecutions 2 1000 [], EvCloseStore 2,
          EvStdout (''Shard 2 scan operation is completed.'' @ [CHR 0x0A]),
          EvInitStore 3, EvListConcreteExecutions 3 1000 [], EvCloseStore 3, EvCloseFile])"
    by (simp add: exampleContext_def shardEvents_def examplePages_def lineEvents_def)
  from a b c show ?thesis by simp
qed

lemma fmt_int_examples: "fmt_int 3 = ''3''" "fmt_int 120 = ''120''" "fmt_int (- 45) = ''-45''"
  by (simp_all add: fmt_int_def fmt_nat.simps digit_char_def)

text \<open>
  C9, as the code has it: the bounds are not validated. When the lower shard bound is
  above the upper one and the output file opens, the scan visits no shard, writes nothing,
  closes the file and returns no error.
\<close>

theorem AdminDBScanUnsupportedWorkflow_empty_range:
  "getOutputFile c = None \<and> FlagUpperShardBound c < FlagLowerShardBound c \<longrightarrow>
     AdminDBScanUnsupportedWorkflow c w = Some (None, w @ [EvCloseFile])"
  by (simp add: AdminDBScanUnsupportedWorkflow_def scanShards_done)

theorem AdminDBScanUnsupportedWorkflow_empty_range_witness:
  "getOutputFile (exampleContext 5 2) = None
   \<and> FlagUpperShardBound (exampleContext 5 2) < FlagLowerShardBound (exampleContext 5 2)
   \<and> AdminDBScanUnsupportedWorkflow (exampleContext 5 2) [EvStdout ''start''] = Some (None, [EvStdout ''start'', EvCloseFile])"
  using AdminDBScanUnsupportedWorkflow_empty_range [of "exampleContext 5 2" "[EvStdout ''start'']"]
  by (simp add: exampleContext_def)

text \<open>
  C9 as the spec states it fails: with the lower bound 1 and the upper bound 0 the run
  completes without an error.
\<close>

theorem invalid_shard_range_completes_counterexample:
  "FlagUpperShardBound (exampleContext 1 0) < FlagLowerShardBound (exampleContext 1 0)
   \<and> AdminDBScanUnsupportedWorkflow (exampleContext 1 0) [] = Some (None, [EvCloseFile])"
  by (simp add: AdminDBScanUnsupportedWorkflow_def exampleContext_def scanShards.simps [of _ 1 0])

lemma iterateExecutions_continue:
  assumes "pageErr it = None" "nextPageItemIndex it < length (pageItems it)"
    and "reportUnsupported c (pageItems it ! nextPageItemIndex it) w = (None, w')"
  shows "iterateExecutions c shardID it w =
     iterateExecutions c shardID (it\<lparr> nextPageItemIndex := Suc (nextPageItemIndex it) \<rparr>) w'"
  unfolding iterateExecutions.simps [of c shardID it w]
  using assms by (simp add: HasNext_buffered Next_buffered)

lemma iterateExecutions_exhausted:
  assumes "\<And>w l. WriteString c w l = None" and "\<And>w. Sync c w = None"
    and "pageErr it = None" "length (pageItems it) \<le> nextPageItemIndex it" "pageToken it \<noteq> []"
    and "page_chain (ListConcreteExecutions c shardID) (pageToken it) ps"
  shows "iterateExecutions c shardID it w
         = Some (map_option (scanShardError shardID) (page_failure ps),
                 w @ concat (map (pageEvents shardID) ps))"
proof -
  have "HasNext (paginationFunc c shardID) it w
      = HasNext (paginationFunc c shardID) (fst (getNextPage (paginationFunc c shardID) it w))
          (snd (getNextPage (paginationFunc c shardID) it w))"
    by (rule HasNext_refill [OF assms(3,4,5)])
  then have "iterateExecutions c shardID it w
      = iterateExecutions c shardID (fst (getNextPage (paginationFunc c shardID) it w))
          (snd (getNextPage (paginationFunc c shardID) it w))"
    by (rule iterateExecutions_cong)
  also have "\<dots> = Some (map_option (scanShardError shardID) (page_failure ps),
                 w @ concat (map (pageEvents shardID) ps))"
    by (rule iterateExecutions_fetched [OF assms(1,2,6)])
  finally show ?thesis .
qed

lemma iterateExecutions_skip_rest:
  assumes "\<And>w l. WriteString c w l = None" and "\<And>w. Sync c w = None"
    and "pageErr it = None" "nextPageItemIndex it < length (pageItems it)"
    and "ExecutionInfo (pageItems it ! nextPageItemIndex it) = None"
  shows "iterateExecutions c shardID it w
         = iterateExecutions c shardID (it\<lparr> nextPageItemIndex := length (pageItems it) \<rparr>)
             (w @ lineEvents (remediationLines (drop (Suc (nextPageItemIndex it)) (pageItems it))))"
proof -
  let ?it' = "it\<lparr> nextPageItemIndex := Suc (nextPageItemIndex it) \<rparr>"
  have "reportUnsupported c (pageItems it ! nextPageItemIndex it) w = (None, w)"
    using assms(5) by (simp add: reportUnsupported_def)
  then have "iterateExecutions c shardID it w = iterateExecutions c shardID ?it' w"
    by (rule iterateExecutions_continue [OF assms(3,4)])
  also have "\<dots> = iterateExecutions c shardID (?it'\<lparr> nextPageItemIndex := length (pageItems ?it') \<rparr>)
             (w @ lineEvents (remediationLines (drop (nextPageItemIndex ?it') (pageItems ?it'))))"
    using assms(3,4) by (intro iterateExecutions_buffer [OF assms(1,2)]) simp_all
  finally show ?thesis by simp
qed

text \<open>
  C10: an execution without execution metadata is passed over and the scan of the shard
  goes on. Whatever its version histories are and whatever the file does, the body of the
  loop writes nothing and returns no error for it, and the loop standing at such an
  execution in its buffer goes on as the loop standing at the execution after it, from
  the same state. On a file that takes every write, the loop standing at such an
  execution does what is left of the shard and nothing for that execution: it writes and
  syncs the lines of the matching executions after it in the buffer, in order; when the
  buffer is the last page it then returns no error; when more pages follow it then
  requests them in order, writes their lines, and returns what their listing ends with.
\<close>

theorem execution_without_info_is_skipped:
  "(ExecutionInfo execution = None \<longrightarrow> reportUnsupported c execution w = (None, w))
   \<and> (pageErr it = None \<and> nextPageItemIndex it < length (pageItems it)
        \<and> ExecutionInfo (pageItems it ! nextPageItemIndex it) = None \<longrightarrow>
      iterateExecutions c shardID it w
        = iterateExecutions c shardID (it\<lparr> nextPageItemIndex := Suc (nextPageItemIndex it) \<rparr>) w)
   \<and> ((\<forall>w l. WriteString c w l = None) \<and> (\<forall>w. Sync c w = None)
        \<and> pageErr it = None \<and> nextPageItemIndex it < length (pageItems it)
        \<and> ExecutionInfo (pageItems it ! nextPageItemIndex it) = None \<longrightarrow>
      iterateExecutions c shardID it w
        = iterateExecutions c shardID (it\<lparr> nextPageItemIndex := length (pageItems it) \<rparr>)
            (w @ lineEvents (remediationLines (drop (Suc (nextPageItemIndex it)) (pageItems it))))
      \<and> (pageToken it = [] \<longrightarrow>
           iterateExecutions c shardID it w
             = Some (None, w @ lineEvents (remediationLines (drop (Suc (nextPageItemIndex it)) (pageItems it)))))
      \<and> (pageToken it \<noteq> [] \<and> page_chain (ListConcreteExecutions c shardID) (pageToken it) ps \<longrightarrow>
           iterateExecutions c shardID it w
             = Some (map_option (scanShardError shardID) (page_failure ps),
                     w @ lineEvents (remediationLines (drop (Suc (nextPageItemIndex it)) (pageItems it)))
                       @ concat (map (pageEvents shardID) ps))))"
proof (intro conjI impI)
  assume "ExecutionInfo execution = None"
  then show "reportUnsupported c execution w = (None, w)"
    by (simp add: reportUnsupported_def)
next
  assume asm: "pageErr it = None \<and> nextPageItemIndex it < length (pageItems it)
        \<and> ExecutionInfo (pageItems it ! nextPageItemIndex it) = None"
  then have "reportUnsupported c (pageItems it ! nextPageItemIndex it) w = (None, w)"
    by (simp add: reportUnsupported_def)
  with asm show "iterateExecutions c shardID it w
        = iterateExecutions c shardID (it\<lparr> nextPageItemIndex := Suc (nextPageItemIndex it) \<rparr>) w"
    by (intro iterateExecutions_continue) simp_all
next
  assume asm: "(\<forall>w l. WriteString c w l = None) \<and> (\<forall>w. Sync c w = None)
        \<and> pageErr it = None \<and> nextPageItemIndex it < length (pageItems it)
        \<and> ExecutionInfo (pageItems it ! nextPageItemIndex it) = None"
  then show "iterateExecutions c shardID it w
        = iterateExecutions c shardID (it\<lparr> nextPageItemIndex := length (pageItems it) \<rparr>)
            (w @ lineEvents (remediationLines (drop (Suc (nextPageItemIndex it)) (pageItems it))))"
    by (intro iterateExecutions_skip_rest) simp_all
next
  assume asm: "(\<forall>w l. WriteString c w l = None) \<and> (\<forall>w. Sync c w = None)
        \<and> pageErr it = None \<and> nextPageItemIndex it < length (pageItems it)
        \<and> ExecutionInfo (pageItems it ! nextPageItemIndex it) = None"
    and last: "pageToken it = []"
  let ?w' = "w @ lineEvents (remediationLines (drop (Suc (nextPageItemIndex it)) (pageItems it)))"
  let ?it' = "it\<lparr> nextPageItemIndex := length (pageItems it) \<rparr>"
  from asm have "iterateExecutions c shardID it w = iterateExecutions c shardID ?it' ?w'"
    by (intro iterateExecutions_skip_rest) simp_all
  also have "\<dots> = Some (None, ?w')"
    using asm last by (intro iterateExecutions_end) simp_all
  finally show "iterateExecutions c shardID it w = Some (None, ?w')" .
next
  assume asm: "(\<forall>w l. WriteString c w l = None) \<and> (\<forall>w. Sync c w = None)
        \<and> pageErr it = None \<and> nextPageItemIndex it < length (pageItems it)
        \<and> ExecutionInfo (pageItems it ! nextPageItemIndex it) = None"
    and more: "pageToken it \<noteq> [] \<and> page_chain (ListConcreteExecutions c shardID) (pageToken it) ps"
  let ?w' = "w @ lineEvents (remediationLines (drop (Suc (nextPageItemIndex it)) (pageItems it)))"
  let ?it' = "it\<lparr> nextPageItemIndex := length (pageItems it) \<rparr>"
  from asm have "iterateExecutions c shardID it w = iterateExecutions c shardID ?it' ?w'"
    by (intro iterateExecutions_skip_rest) simp_all
  also have "\<dots> = Some (map_option (scanShardError shardID) (page_failure ps),
                     ?w' @ concat (map (pageEvents shardID) ps))"
    using asm more by (intro iterateExecutions_exhausted) simp_all
  finally show "iterateExecutions c shardID it w
             = Some (map_option (scanShardError shardID) (page_failure ps),
                     w @ lineEvents (remediationLines (drop (Suc (nextPageItemIndex it)) (pageItems it)))
                       @ concat (map (pageEvents shardID) ps))"
    by simp
qed

theorem execution_without_info_is_skipped_witness:
  "ExecutionInfo bareExecution = None \<and> VersionHistories bareExecution = None
   \<and> reportUnsupported (exampleContext 1 1) bareExecution [] = (None, [])
   \<and> iterateExecutions (exampleContext 1 1) 1
        \<lparr> pageToken = [], pageErr = None, pageItems = [bareExecution, openExecution], nextPageItemIndex = 0 \<rparr> []
      = Some (None,
          [EvWriteString (''cadence --address <host>:<port> --domain <domain-1> workflow reset --wid wf-open''
                          @ '' --rid run-1 --reset_type LastDecisionCompleted --reason 'release 0.16 upgrade''
                          @ [CHR 0x27, CHR 0x0A]),
           EvSync])
   \<and> iterateExecutions (exampleContext 1 1) 1
        \<lparr> pageToken = [1], pageErr = None, pageItems = [closedExecution, bareExecution, openExecution],
          nextPageItemIndex = 1 \<rparr> []
      = Some (None,
          [EvWriteString (''cadence --address <host>:<port> --domain <domain-1> workflow reset --wid wf-open''
                          @ '' --rid run-1 --reset_type LastDecisionCompleted --reason 'release 0.16 upgrade''
                          @ [CHR 0x27, CHR 0x0A]),
           EvSync, EvListConcreteExecutions 1 1000 [1]])"
proof -
  let ?c = "exampleContext 1 1"
  let ?line = "''cadence --address <host>:<port> --domain <domain-1> workflow reset --wid wf-open''
               @ '' --rid run-1 --reset_type LastDecisionCompleted --reason 'release 0.16 upgrade''
               @ [CHR 0x27, CHR 0x0A]"
  let ?last = "\<lparr> pageToken = [], pageErr = None, pageItems = [bareExecution, openExecution],
                 nextPageItemIndex = 0 \<rparr>"
  let ?more = "\<lparr> pageToken = [1], pageErr = None,
                 pageItems = [closedExecution, bareExecution, openExecution], nextPageItemIndex = 1 \<rparr>"
  let ?ps = "[([1], Inr [versionedExecution])]"
  have lines: "remediationLines [openExecution] = [?line]" "remediationLines [versionedExecution] = []"
    by (simp_all add: remediationLines_def stillOpenWithoutHistories_def outStr_def
        openExecution_def versionedExecution_def)
  have bare: "ExecutionInfo bareExecution = None" "VersionHistories bareExecution = None"
    by (simp_all add: bareExecution_def)
  note skipped_last = execution_without_info_is_skipped
         [where execution = bareExecution and c = ?c and w = "[]" and shardID = 1 and it = ?last and ps = "[]"]
  note skipped_more = execution_without_info_is_skipped
         [where execution = bareExecution and c = ?c and w = "[]" and shardID = 1 and it = ?more and ps = ?ps]
  have a: "reportUnsupported ?c bareExecution [] = (None, [])"
    using skipped_last bare(1) by blast
  have takes: "(\<forall>w l. WriteString ?c w l = None) \<and> (\<forall>w. Sync ?c w = None)"
    by (simp add: exampleContext_def)
  have at_last: "pageErr ?last = None \<and> nextPageItemIndex ?last < length (pageItems ?last)
      \<and> ExecutionInfo (pageItems ?last ! nextPageItemIndex ?last) = None"
    by (simp add: bareExecution_def)
  have tok_last: "pageToken ?last = []"
    by simp
  from skipped_last takes at_last tok_last
  have "iterateExecutions ?c 1 ?last []
      = Some (None, [] @ lineEvents (remediationLines (drop (Suc (nextPageItemIndex ?last)) (pageItems ?last))))"
    by blast
  then have b: "iterateExecutions ?c 1 ?last [] = Some (None, [EvWriteString ?line, EvSync])"
    by (simp add: lines lineEvents_def)
  have at_more: "pageErr ?more = None \<and> nextPageItemIndex ?more < length (pageItems ?more)
      \<and> ExecutionInfo (pageItems ?more ! nextPageItemIndex ?more) = None"
    by (simp add: bareExecution_def)
  have tok_more: "pageToken ?more \<noteq> [] \<and> page_chain (ListConcreteExecutions ?c 1) (pageToken ?more) ?ps"
    by (simp add: exampleContext_def exampleStore_def)
  from skipped_more takes at_more tok_more
  have "iterateExecutions ?c 1 ?more []
      = Some (map_option (scanShardError 1) (page_failure ?ps),
              [] @ lineEvents (remediationLines (drop (Suc (nextPageItemIndex ?more)) (pageItems ?more)))
                 @ concat (map (pageEvents 1) ?ps))"
    by blast
  then have c: "iterateExecutions ?c 1 ?more []
      = Some (None, [EvWriteString ?line, EvSync, EvListConcreteExecutions 1 1000 [1]])"
    by (simp add: lines lineEvents_def)
  from bare a b c show ?thesis by simp
qed

section \<open>Properties of the targeted scan\<close>

lemma scanExecutions_append:
  "scanExecutions c n invariants ef (xs @ ys) w =
     (case scanExecutions c n invariants ef xs w of
        (Some e, w') \<Rightarrow> (Some e, w')
      | (None, w') \<Rightarrow> scanExecutions c n invariants ef ys w')"
  by (induction xs arbitrary: w) (auto split: prod.splits sum.splits option.splits)

lemma checkExecution_fetch_error:
  assumes "initializeExecutionStore c (WorkflowIDToHistoryShard c (requestWorkflowID c req) n) = None"
    and "newContext c = None"
    and "ef (NewPersistenceRetryer c (WorkflowIDToHistoryShard c (requestWorkflowID c req) n)) req = Inl e"
  shows "checkExecution c n req invariants ef w =
     (Inl (PrintableError ''Error in fetching context: '' (Some e)),
      w @ [EvInitStore (WorkflowIDToHistoryShard c (requestWorkflowID c req) n), EvInitHistoryManager,
           EvCloseHistoryManager, EvCloseStore (WorkflowIDToHistoryShard c (requestWorkflowID c req) n)])"
  using assms by (simp add: checkExecution_def Let_def)

text \<open>
  C1, as the code has it: a fetch error while checking one execution ends the scan. The
  executions before it having been scanned without an error, the scan returns the error
  \<^verbatim>\<open>Error checking execution: \<close> around the error of \<^verbatim>\<open>checkExecution\<close> around the fetch
  error, after opening and closing the stores of that execution, and whatever executions
  follow in the batch are not checked: the result does not depend on them.
\<close>

theorem fetch_error_ends_the_scan:
  "scanExecutions c n invariants ef before w = (None, w1)
   \<and> initializeExecutionStore c (WorkflowIDToHistoryShard c (requestWorkflowID c req) n) = None
   \<and> newContext c = None
   \<and> ef (NewPersistenceRetryer c (WorkflowIDToHistoryShard c (requestWorkflowID c req) n)) req = Inl e
   \<longrightarrow> scanExecutions c n invariants ef (before @ req # after) w
       = (Some (PrintableError ''Error checking execution: ''
                  (Some (PrintableError ''Error in fetching context: '' (Some e)))),
          w1 @ [EvInitStore (WorkflowIDToHistoryShard c (requestWorkflowID c req) n), EvInitHistoryManager,
                EvCloseHistoryManager, EvCloseStore (WorkflowIDToHistoryShard c (requestWorkflowID c req) n)])"
proof
  assume asm: "scanExecutions c n invariants ef before w = (None, w1)
   \<and> initializeExecutionStore c (WorkflowIDToHistoryShard c (requestWorkflowID c req) n) = None
   \<and> newContext c = None
   \<and> ef (NewPersistenceRetryer c (WorkflowIDToHistoryShard c (requestWorkflowID c req) n)) req = Inl e"
  then have "checkExecution c n req invariants ef w1 =
     (Inl (PrintableError ''Error in fetching context: '' (Some e)),
      w1 @ [EvInitStore (WorkflowIDToHistoryShard c (requestWorkflowID c req) n), EvInitHistoryManager,
            EvCloseHistoryManager, EvCloseStore (WorkflowIDToHistoryShard c (requestWorkflowID c req) n)])"
    by (intro checkExecution_fetch_error) simp_all
  with asm show "scanExecutions c n invariants ef (before @ req # after) w
       = (Some (PrintableError ''Error checking execution: ''
                  (Some (PrintableError ''Error in fetching context: '' (Some e)))),
          w1 @ [EvInitStore (WorkflowIDToHistoryShard c (requestWorkflowID c req) n), EvInitHistoryManager,
                EvCloseHistoryManager, EvCloseStore (WorkflowIDToHistoryShard c (requestWorkflowID c req) n)])"
    by (simp add: scanExecutions_append)
qed

theorem fetch_error_ends_the_scan_witness:
  "scanExecutions exampleScanContext 4 exampleInvariants exampleFetcher [''C''] [] =
      (None, [EvInitStore 0, EvInitHistoryManager, EvCloseHistoryManager, EvCloseStore 0, EvStdout ''C''])
   \<and> exampleFetcher () ''A'' = Inl (Underlying ''not found'')
   \<and> scanExecutions exampleScanContext 4 exampleInvariants exampleFetcher ([''C''] @ ''A'' # [''B'']) []
       = (Some (PrintableError ''Error checking execution: ''
                  (Some (PrintableError ''Error in fetching context: '' (Some (Underlying ''not found''))))),
          [EvInitStore 0, EvInitHistoryManager, EvCloseHistoryManager, EvCloseStore 0, EvStdout ''C'',
           EvInitStore 0, EvInitHistoryManager, EvCloseHistoryManager, EvCloseStore 0])"
proof -
  have before: "scanExecutions exampleScanContext 4 exampleInvariants exampleFetcher [''C''] [] =
      (None, [EvInitStore 0, EvInitHistoryManager, EvCloseHistoryManager, EvCloseStore 0, EvStdout ''C''])"
    by (simp add: checkExecution_def exampleScanContext_def exampleFetcher_def Let_def)
  from fetch_error_ends_the_scan
         [where c = exampleScanContext and n = 4 and invariants = exampleInvariants and ef = exampleFetcher
            and before = "[''C'']" and w = "[]" and ?w1.0 = "[EvInitStore 0, EvInitHistoryManager, EvCloseHistoryManager, EvCloseStore 0, EvStdout ''C'']"
            and req = "''A''" and e = "Underlying ''not found''" and after = "[''B'']"]
    before
  show ?thesis
    by (simp add: exampleScanContext_def exampleFetcher_def)
qed

text \<open>
  C1 as the spec states it fails: of the two executions \<^verbatim>\<open>A\<close> and \<^verbatim>\<open>B\<close>, \<^verbatim>\<open>A\<close>
  cannot be fetched; the scan returns an error and \<^verbatim>\<open>B\<close>, which scanned alone gives a
  record, is never reached.
\<close>

theorem fetch_error_skipped_counterexample:
  "scanExecutions exampleScanContext 4 exampleInvariants exampleFetcher [''A'', ''B''] []
     = (Some (PrintableError ''Error checking execution: ''
                (Some (PrintableError ''Error in fetching context: '' (Some (Underlying ''not found''))))),
        [EvInitStore 0, EvInitHistoryManager, EvCloseHistoryManager, EvCloseStore 0])
   \<and> scanExecutions exampleScanContext 4 exampleInvariants exampleFetcher [''B''] []
     = (None, [EvInitStore 0, EvInitHistoryManager, EvCloseHistoryManager, EvCloseStore 0, EvStdout ''B''])"
  by (simp add: checkExecution_def exampleScanContext_def exampleFetcher_def Let_def)

lemma decodeRequests_stuck:
  fixes Decode :: "'d \<Rightarrow> (error + 'r) \<times> 'd"
  assumes "decodeRequests Decode dec data = Some r"
  shows "\<not> (\<exists>e. Decode dec = (Inl e, dec) \<and> e \<noteq> EOF \<and> e \<noteq> ErrUnexpectedEOF)"
proof (rule decodeRequests.raw_induct
    [where P = "\<lambda>Decode dec data r. \<not> (\<exists>e. Decode dec = (Inl e, dec) \<and> e \<noteq> EOF \<and> e \<noteq> ErrUnexpectedEOF)",
     OF _ assms])
  fix f :: "('d \<Rightarrow> (error + 'r) \<times> 'd) \<Rightarrow> 'd \<Rightarrow> 'r list \<Rightarrow> 'r list option"
  fix D d data r
  assume IH: "\<And>D d data r. f D d data = Some r \<Longrightarrow>
      \<not> (\<exists>e. D d = (Inl e, d) \<and> e \<noteq> EOF \<and> e \<noteq> ErrUnexpectedEOF)"
  assume step: "(case D d of
      (Inl err, dec') \<Rightarrow> if err = EOF \<or> err = ErrUnexpectedEOF then Some data else f D dec' data
      | (Inr exec, dec') \<Rightarrow> f D dec' (data @ [exec])) = Some r"
  show "\<not> (\<exists>e. D d = (Inl e, d) \<and> e \<noteq> EOF \<and> e \<noteq> ErrUnexpectedEOF)"
  proof
    assume "\<exists>e. D d = (Inl e, d) \<and> e \<noteq> EOF \<and> e \<noteq> ErrUnexpectedEOF"
    then obtain e where e: "D d = (Inl e, d)" "e \<noteq> EOF" "e \<noteq> ErrUnexpectedEOF" by blast
    with step have "f D d data = Some r" by simp
    from IH [OF this] e show False by blast
  qed
qed

lemma decodeRequests_never_returns:
  assumes "Decode dec = (Inl e, dec)" "e \<noteq> EOF" "e \<noteq> ErrUnexpectedEOF"
  shows "decodeRequests Decode dec data = None"
proof (cases "decodeRequests Decode dec data")
  case None
  then show ?thesis .
next
  case (Some r)
  from decodeRequests_stuck [OF this] assms show ?thesis by blast
qed

lemma decodeRequests_value:
  "Decode dec = (Inr v, dec') \<Longrightarrow>
   decodeRequests Decode dec data = decodeRequests Decode dec' (data @ [v])"
  by (subst decodeRequests.simps) simp

lemma decodeRequests_skip:
  "Decode dec = (Inl e, dec') \<Longrightarrow> e \<noteq> EOF \<Longrightarrow> e \<noteq> ErrUnexpectedEOF \<Longrightarrow>
   decodeRequests Decode dec data = decodeRequests Decode dec' data"
  by (subst decodeRequests.simps) simp

lemma decodeRequests_end:
  "Decode dec = (Inl e, dec') \<Longrightarrow> e = EOF \<or> e = ErrUnexpectedEOF \<Longrightarrow>
   decodeRequests Decode dec data = Some data"
  by (subst decodeRequests.simps) auto

text \<open>
  C2 on the code: on the three-line input whose second line is no JSON, the input loop
  takes the first request, gets the syntax error, and gets it again on every later call of
  \<^verbatim>\<open>Decode\<close>; it has no exit for it, so it never returns, and neither does the command.
\<close>

theorem malformed_input_never_returns:
  "decodeRequests JsonDecode (NewDecoder exampleInput) [] = None
   \<and> AdminDBScan c numberOfShards invariants ef JsonDecode (NewDecoder exampleInput) w = None"
proof -
  let ?bad = "Malformed ''invalid character 'b' looking for beginning of object key string''"
  let ?err = "SyntaxError ''invalid character 'b' looking for beginning of object key string''"
  let ?dec = "\<lparr> input = [?bad, Value ''B''], dec_err = Some ?err \<rparr>"
  have "JsonDecode ?dec = (Inl ?err, ?dec)"
    by (simp add: JsonDecode_def)
  then have stuck: "decodeRequests JsonDecode ?dec [''A''] = None"
    by (rule decodeRequests_never_returns) simp_all
  have "JsonDecode (NewDecoder exampleInput) = (Inr ''A'', \<lparr> input = [?bad, Value ''B''], dec_err = None \<rparr>)"
    by (simp add: JsonDecode_def NewDecoder_def exampleInput_def)
  then have "decodeRequests JsonDecode (NewDecoder exampleInput) []
      = decodeRequests JsonDecode \<lparr> input = [?bad, Value ''B''], dec_err = None \<rparr> ([] @ [''A''])"
    by (rule decodeRequests_value)
  also have "JsonDecode \<lparr> input = [?bad, Value ''B''], dec_err = None \<rparr> = (Inl ?err, ?dec)"
    by (simp add: JsonDecode_def)
  then have "decodeRequests JsonDecode \<lparr> input = [?bad, Value ''B''], dec_err = None \<rparr> ([] @ [''A''])
      = decodeRequests JsonDecode ?dec ([] @ [''A''])"
    by (rule decodeRequests_skip) simp_all
  finally have "decodeRequests JsonDecode (NewDecoder exampleInput) [] = None"
    using stuck by simp
  then show ?thesis by (simp add: AdminDBScan_def)
qed

text \<open>
  What the input loop does get right: on an input in which no chunk that is no JSON comes
  before the end or before a value cut short, it returns, with the requests read up to
  there, in order.
\<close>

lemma decodeRequests_wellFormed:
  "wellFormed chunks \<Longrightarrow>
   decodeRequests JsonDecode \<lparr> input = chunks, dec_err = None \<rparr> data = Some (data @ decoded chunks)"
proof (induction chunks arbitrary: data rule: decoded.induct)
  case 1
  have "JsonDecode \<lparr> input = [], dec_err = None \<rparr>
      = (Inl EOF, \<lparr> input = [] :: 'a chunk list, dec_err = Some EOF \<rparr>)"
    by (simp add: JsonDecode_def)
  then have "decodeRequests JsonDecode \<lparr> input = [] :: 'a chunk list, dec_err = None \<rparr> data = Some data"
    by (rule decodeRequests_end) simp
  then show ?case by simp
next
  case (2 v rest)
  have "JsonDecode \<lparr> input = Value v # rest, dec_err = None \<rparr>
      = (Inr v, \<lparr> input = rest, dec_err = None \<rparr>)"
    by (simp add: JsonDecode_def)
  then have "decodeRequests JsonDecode \<lparr> input = Value v # rest, dec_err = None \<rparr> data
      = decodeRequests JsonDecode \<lparr> input = rest, dec_err = None \<rparr> (data @ [v])"
    by (rule decodeRequests_value)
  with 2 show ?case by simp
next
  case (3 msg rest)
  have "JsonDecode \<lparr> input = Mistyped msg # rest, dec_err = None \<rparr>
      = (Inl (UnmarshalTypeError msg), \<lparr> input = rest, dec_err = None \<rparr>)"
    by (simp add: JsonDecode_def)
  then have "decodeRequests JsonDecode \<lparr> input = Mistyped msg # rest, dec_err = None \<rparr> data
      = decodeRequests JsonDecode \<lparr> input = rest, dec_err = None \<rparr> data"
    by (rule decodeRequests_skip) simp_all
  with 3 show ?case by simp
next
  case (4 msg rest)
  then show ?case by simp
next
  case (5 rest)
  have "JsonDecode \<lparr> input = Truncated # rest, dec_err = None \<rparr>
      = (Inl ErrUnexpectedEOF, \<lparr> input = Truncated # rest, dec_err = Some ErrUnexpectedEOF \<rparr>)"
    by (simp add: JsonDecode_def)
  then have "decodeRequests JsonDecode \<lparr> input = Truncated # rest, dec_err = None \<rparr> data = Some data"
    by (rule decodeRequests_end) simp
  then show ?case by simp
qed

end
